theory Spec2Isabelle
  imports Complex_Main "HOL-Library.Log_Nat"
begin

section \<open>The visual playground notebook\<close>

text \<open>
  The notebook \<^verbatim>\<open>visual_playground.ipynb\<close> defines three functions,
  \<^verbatim>\<open>create_model\<close>, \<^verbatim>\<open>plot_decision_boundary\<close> and \<^verbatim>\<open>interactive_nn\<close>, and wires
  the last one to four widgets. Each is embedded below, statement by statement, next to
  its source text.

  The notebook is glue: nearly every statement calls numpy, Keras, matplotlib, IPython
  or ipywidgets. The code of these libraries is not part of the repository. What the
  notebook relies on is embedded from their documented behaviour, and each such
  definition says so:
  \<^item> numpy arrays of float64 are lists of rationals (every finite double is a rational),
    and the arithmetic of the notebook is rounded after each operation by \<open>rnd\<close>;
  \<^item> what Keras computes with the weights (the initial weights, one epoch of
    training, the forward pass) is a parameter, the record \<open>framework\<close>;
  \<^item> a matplotlib axes is the list of drawing commands it has received, in order;
  \<^item> the cell's output area and the module-level arrays \<^verbatim>\<open>X\<close>, \<^verbatim>\<open>y\<close> are the
    state of the kernel, passed explicitly;
  \<^item> a Python exception is a value \<open>Inl e\<close>.
  The sample generator \<^verbatim>\<open>make_moons\<close> and the numerics of training are not embedded:
  the sample set and the framework are arbitrary in every statement below.
\<close>

subsection \<open>Exceptions\<close>

datatype py_error = ValueError | ArithmeticError

definition py_bind :: "py_error + 'a \<Rightarrow> ('a \<Rightarrow> py_error + 'b) \<Rightarrow> py_error + 'b" where
  "py_bind r f = (case r of Inl e \<Rightarrow> Inl e | Inr v \<Rightarrow> f v)"

subsection \<open>float64 arithmetic\<close>

text \<open>
  \<open>binary64\<close> rounds a rational to the nearest number with a 53-bit significand, ties to
  the even significand, as IEEE 754 does for every operation of the notebook. The
  exponent is unbounded: overflow to infinity, subnormal numbers and NaN are outside the
  model. \<open>Exact\<close> is the arithmetic without rounding; it is there to say which
  properties hold of the formulas and which only of their rounded evaluation.
\<close>

definition round_half_even :: "rat \<Rightarrow> int" where
  "round_half_even q =
     (let f = \<lfloor>q\<rfloor>; r = q - of_int f
      in if r < 1 / 2 then f else if 1 / 2 < r then f + 1 else if even f then f else f + 1)"

definition ilog2 :: "rat \<Rightarrow> int" where
  "ilog2 q = (let (n, d) = quotient_of \<bar>q\<bar>; k = bitlen n - bitlen d
              in if 2 powi k \<le> \<bar>q\<bar> then k else k - 1)"

definition binary64 :: "rat \<Rightarrow> rat" where
  "binary64 q = (if q = 0 then 0
                 else let u = 2 powi (ilog2 q - 52) in of_int (round_half_even (q / u)) * u)"

datatype arithmetic = Exact | Binary64

fun rnd :: "arithmetic \<Rightarrow> rat \<Rightarrow> rat" where
  "rnd Exact q = q"
| "rnd Binary64 q = binary64 q"

subsection \<open>numpy\<close>

text \<open>
  A two-dimensional array is its shape (rows, columns) and its elements in row-major
  order, which is what \<^verbatim>\<open>ravel\<close> returns.
\<close>

record 'a ndarray =
  shape :: "nat \<times> nat"
  flat :: "'a list"

text \<open>
  numpy: \<^verbatim>\<open>a.min()\<close> and \<^verbatim>\<open>a.max()\<close> reduce from the first element and raise ValueError
  on an array of size zero.
\<close>

definition np_min :: "rat list \<Rightarrow> py_error + rat" where
  "np_min xs = (case xs of [] \<Rightarrow> Inl ValueError | x # r \<Rightarrow> Inr (fold min r x))"

definition np_max :: "rat list \<Rightarrow> py_error + rat" where
  "np_max xs = (case xs of [] \<Rightarrow> Inl ValueError | x # r \<Rightarrow> Inr (fold max r x))"

text \<open>
  numpy: \<^verbatim>\<open>np.arange(start, stop, step)\<close> on floats. The length is
  \<open>ceil((stop - start) / step)\<close>, computed in float64. Item 0 is \<open>start\<close>, item 1 is
  \<open>start + step\<close>, and item \<open>i\<close> is \<open>start + i * delta\<close>, where \<open>delta\<close> is the difference
  of the first two items. A length that is not positive gives the empty array; a zero
  step raises. numpy's documentation warns that with a step that is not an integer the
  last item can be greater than \<open>stop\<close>.
\<close>

definition arange_length :: "arithmetic \<Rightarrow> rat \<Rightarrow> rat \<Rightarrow> rat \<Rightarrow> nat" where
  "arange_length a start stop step = nat \<lceil>rnd a (rnd a (stop - start) / step)\<rceil>"

definition arange_item :: "arithmetic \<Rightarrow> rat \<Rightarrow> rat \<Rightarrow> nat \<Rightarrow> rat" where
  "arange_item a start step i =
     (let nxt = rnd a (start + step);
          delta = rnd a (nxt - start)
      in if i = 0 then start else if i = 1 then nxt
         else rnd a (start + rnd a (of_nat i * delta)))"

definition np_arange :: "arithmetic \<Rightarrow> rat \<Rightarrow> rat \<Rightarrow> rat \<Rightarrow> py_error + rat list" where
  "np_arange a start stop step =
     (if step = 0 then Inl ArithmeticError
      else Inr (map (arange_item a start step) [0..<arange_length a start stop step]))"

text \<open>
  numpy: \<^verbatim>\<open>np.meshgrid(gx, gy)\<close> with the default indexing: both results have
  \<open>length gy\<close> rows and \<open>length gx\<close> columns; \<open>xx\<close> repeats \<open>gx\<close> in every row, \<open>yy\<close> holds
  \<open>gy ! i\<close> throughout row \<open>i\<close>.
\<close>

definition np_meshgrid :: "rat list \<Rightarrow> rat list \<Rightarrow> rat ndarray \<times> rat ndarray" where
  "np_meshgrid gx gy =
     (\<lparr>shape = (length gy, length gx), flat = concat (replicate (length gy) gx)\<rparr>,
      \<lparr>shape = (length gy, length gx), flat = concat (map (replicate (length gx)) gy)\<rparr>)"

definition ravel :: "'a ndarray \<Rightarrow> 'a list" where
  "ravel A = flat A"

text \<open>numpy: \<^verbatim>\<open>np.c_[u, v]\<close> on two vectors of one length: the rows \<open>(u ! i, v ! i)\<close>.\<close>

definition np_c :: "rat list \<Rightarrow> rat list \<Rightarrow> (rat \<times> rat) list" where
  "np_c u v = zip u v"

text \<open>numpy: \<^verbatim>\<open>(Z > 0.5).astype(int)\<close>, elementwise; the comparison is strict.\<close>

definition greater_half_astype_int :: "rat list \<Rightarrow> int list" where
  "greater_half_astype_int Z = map (\<lambda>z. if 1 / 2 < z then 1 else 0) Z"

text \<open>numpy: \<^verbatim>\<open>reshape\<close> raises ValueError when the sizes differ.\<close>

definition reshape :: "nat \<times> nat \<Rightarrow> 'a list \<Rightarrow> py_error + 'a ndarray" where
  "reshape shp zs =
     (if length zs = fst shp * snd shp then Inr \<lparr>shape = shp, flat = zs\<rparr> else Inl ValueError)"

subsection \<open>Keras\<close>

record dense =
  units :: int
  activation :: string
  input_shape :: "nat list option"

datatype optimizer = Adam rat

record 'w keras_model =
  layers :: "dense list"
  weights :: 'w
  optimizer :: "optimizer option"
  loss :: "string option"
  metrics :: "string list"

record history =
  hist_loss :: "rat list"
  hist_accuracy :: "rat list"

text \<open>
  The part of Keras that works on weights. \<open>'w\<close> is the trainable state (weights and
  optimizer slots), \<open>'r\<close> the state of the framework's random number generator, which
  the initializer and the shuffling of each epoch consume.
  \<^item> \<open>activation_names\<close>: the identifiers \<^verbatim>\<open>Dense(activation=...)\<close> resolves;
  \<^item> \<open>initializer\<close>: the initial weights of a stack of layers;
  \<^item> \<open>train_epoch\<close>: one pass over the samples, giving the new weights and the
    epoch's loss and accuracy;
  \<^item> \<open>forward\<close>: the output of the network on one input row.
\<close>

record ('w, 'r) framework =
  activation_names :: "string list"
  initializer :: "dense list \<Rightarrow> 'r \<Rightarrow> 'w \<times> 'r"
  train_epoch :: "'w keras_model \<Rightarrow> (rat \<times> rat) list \<Rightarrow> int list \<Rightarrow> 'r \<Rightarrow> ('w \<times> rat \<times> rat) \<times> 'r"
  forward :: "'w keras_model \<Rightarrow> rat \<times> rat \<Rightarrow> rat"

text \<open>
  Keras: \<^verbatim>\<open>layers.Dense(units, activation=..., input_shape=...)\<close> raises ValueError when
  \<open>units\<close> is not positive and when the activation identifier is unknown.
  \<^verbatim>\<open>models.Sequential\<close> on layers with an input shape builds the weights at once, from
  the initializer. \<^verbatim>\<open>compile\<close> stores the optimizer, the loss and the metrics.
\<close>

definition Dense :: "('w, 'r) framework \<Rightarrow> int \<Rightarrow> string \<Rightarrow> nat list option \<Rightarrow> py_error + dense" where
  "Dense K n act shp =
     (if n \<le> 0 then Inl ValueError
      else if act \<notin> set (activation_names K) then Inl ValueError
      else Inr \<lparr>units = n, activation = act, input_shape = shp\<rparr>)"

definition Sequential :: "('w, 'r) framework \<Rightarrow> dense list \<Rightarrow> 'r \<Rightarrow> 'w keras_model \<times> 'r" where
  "Sequential K ls r =
     (let (w, r') = initializer K ls r
      in (\<lparr>layers = ls, weights = w, optimizer = None, loss = None, metrics = []\<rparr>, r'))"

definition compile :: "'w keras_model \<Rightarrow> optimizer \<Rightarrow> string \<Rightarrow> string list \<Rightarrow> 'w keras_model" where
  "compile m opt l ms = m\<lparr>optimizer := Some opt, loss := Some l, metrics := ms\<rparr>"

text \<open>
  Source, cell 6:
  \<^verbatim>\<open>
  def create_model(neurons=4, activation='relu', lr=0.01):
      model = models.Sequential([
          layers.Dense(neurons, activation=activation, input_shape=(2,)),
          layers.Dense(1, activation='sigmoid')
      ])
      optimizer = optimizers.Adam(learning_rate=lr)
      model.compile(optimizer=optimizer, loss='binary_crossentropy', metrics=['accuracy'])
      return model
  \<close>
\<close>

definition create_model ::
  "('w, 'r) framework \<Rightarrow> int \<Rightarrow> string \<Rightarrow> rat \<Rightarrow> 'r \<Rightarrow> py_error + ('w keras_model \<times> 'r)" where
  "create_model K neurons act lr r =
     py_bind (Dense K neurons act (Some [2])) (\<lambda>l1.
     py_bind (Dense K 1 ''sigmoid'' None) (\<lambda>l2.
       let (model, r') = Sequential K [l1, l2] r;
           opt = Adam lr
       in Inr (compile model opt ''binary_crossentropy'' [''accuracy''], r')))"

text \<open>
  Modelled from the spec: the trainer, \<^verbatim>\<open>Model.fit\<close> of Keras, whose code is not part
  of the notebook. Section 4.2: it fits the model on the sample set "for exactly that
  many epochs, no validation split, no early stopping" and returns "the trained model
  plus the ordered per-epoch loss sequence". \<open>fit_epochs\<close> is that loop: \<open>n\<close> passes,
  each appending its loss. As in Python's \<^verbatim>\<open>range(epochs)\<close>, a count that is not positive
  gives no pass. Arrays of different lengths and an empty array are rejected.
\<close>

fun fit_epochs ::
  "('w, 'r) framework \<Rightarrow> (rat \<times> rat) list \<Rightarrow> int list \<Rightarrow> nat \<Rightarrow> 'w keras_model \<Rightarrow> 'r
     \<Rightarrow> 'w keras_model \<times> history \<times> 'r" where
  "fit_epochs K X y 0 m r = (m, \<lparr>hist_loss = [], hist_accuracy = []\<rparr>, r)"
| "fit_epochs K X y (Suc n) m r =
     (let ((w, l, acc), r1) = train_epoch K m X y r;
          (m', h, r2) = fit_epochs K X y n (m\<lparr>weights := w\<rparr>) r1
      in (m', \<lparr>hist_loss = l # hist_loss h, hist_accuracy = acc # hist_accuracy h\<rparr>, r2))"

definition fit ::
  "('w, 'r) framework \<Rightarrow> 'w keras_model \<Rightarrow> (rat \<times> rat) list \<Rightarrow> int list \<Rightarrow> int \<Rightarrow> 'r
     \<Rightarrow> py_error + ('w keras_model \<times> history \<times> 'r)" where
  "fit K m X y epochs r =
     (if X = [] \<or> length X \<noteq> length y then Inl ValueError
      else Inr (fit_epochs K X y (nat epochs) m r))"

text \<open>Keras: \<^verbatim>\<open>model.predict(points, verbose=0)\<close>, one output per row.\<close>

definition predict :: "('w, 'r) framework \<Rightarrow> 'w keras_model \<Rightarrow> (rat \<times> rat) list \<Rightarrow> rat list" where
  "predict K m pts = map (forward K m) pts"

subsection \<open>matplotlib\<close>

text \<open>
  An axes records what it was asked to draw. \<open>Contourf xx yy Z alpha cmap\<close> is
  \<^verbatim>\<open>contourf(xx, yy, Z, alpha=..., cmap=...)\<close>; \<open>Scatter u v c edge\<close> is
  \<^verbatim>\<open>scatter(u, v, c=..., edgecolors=...)\<close>; \<open>Line vs color\<close> is \<^verbatim>\<open>plot(vs, color=...)\<close>.
  How matplotlib turns a command into pixels, and what it rejects, is outside the model.
\<close>

datatype artist =
    Contourf "rat ndarray" "rat ndarray" "int ndarray" rat string
  | Scatter "rat list" "rat list" "int list" string
  | Line "rat list" string

record axes =
  title :: string
  xlabel :: string
  ylabel :: string
  artists :: "artist list"

record figure =
  figsize :: "nat \<times> nat"
  axs :: "axes list"

definition new_axes :: axes where
  "new_axes = \<lparr>title = [], xlabel = [], ylabel = [], artists = []\<rparr>"

definition contourf :: "axes \<Rightarrow> rat ndarray \<Rightarrow> rat ndarray \<Rightarrow> int ndarray \<Rightarrow> rat \<Rightarrow> string \<Rightarrow> axes" where
  "contourf ax xx yy Z alpha cmap = ax\<lparr>artists := artists ax @ [Contourf xx yy Z alpha cmap]\<rparr>"

definition scatter :: "axes \<Rightarrow> rat list \<Rightarrow> rat list \<Rightarrow> int list \<Rightarrow> string \<Rightarrow> axes" where
  "scatter ax u v c edge = ax\<lparr>artists := artists ax @ [Scatter u v c edge]\<rparr>"

definition plot :: "axes \<Rightarrow> rat list \<Rightarrow> string \<Rightarrow> axes" where
  "plot ax vs color = ax\<lparr>artists := artists ax @ [Line vs color]\<rparr>"

definition set_title :: "axes \<Rightarrow> string \<Rightarrow> axes" where
  "set_title ax s = ax\<lparr>title := s\<rparr>"

definition set_xlabel :: "axes \<Rightarrow> string \<Rightarrow> axes" where
  "set_xlabel ax s = ax\<lparr>xlabel := s\<rparr>"

definition set_ylabel :: "axes \<Rightarrow> string \<Rightarrow> axes" where
  "set_ylabel ax s = ax\<lparr>ylabel := s\<rparr>"

text \<open>\<^verbatim>\<open>plt.subplots(1, 2, figsize=...)\<close>: a figure and its two empty axes.\<close>

definition subplots_1_2 :: "nat \<times> nat \<Rightarrow> figure \<times> axes \<times> axes" where
  "subplots_1_2 fs = (\<lparr>figsize = fs, axs = [new_axes, new_axes]\<rparr>, new_axes, new_axes)"

subsection \<open>The boundary renderer\<close>

text \<open>
  Source, cell 8:
  \<^verbatim>\<open>
  def plot_decision_boundary(model, X, y, ax):
      h = 0.02
      x_min, x_max = X[:, 0].min() - .5, X[:, 0].max() + .5
      y_min, y_max = X[:, 1].min() - .5, X[:, 1].max() + .5
      xx, yy = np.meshgrid(np.arange(x_min, x_max, h),
                           np.arange(y_min, y_max, h))
      Z = model.predict(np.c_[xx.ravel(), yy.ravel()], verbose=0)
      Z = (Z > 0.5).astype(int).reshape(xx.shape)
      ax.contourf(xx, yy, Z, alpha=0.3, cmap='coolwarm')
      ax.scatter(X[:, 0], X[:, 1], c=y, edgecolors='k')
      ax.set_xlabel('Feature 1')
      ax.set_ylabel('Feature 2')
  \<close>
  \<open>X\<close> is the list of its rows, so \<^verbatim>\<open>X[:, 0]\<close> is \<open>map fst X\<close> and \<^verbatim>\<open>X[:, 1]\<close> is
  \<open>map snd X\<close>. The literal \<^verbatim>\<open>0.02\<close> is the double nearest to 1/50; \<^verbatim>\<open>.5\<close> is exact.
\<close>

definition plot_decision_boundary ::
  "arithmetic \<Rightarrow> ('w, 'r) framework \<Rightarrow> 'w keras_model \<Rightarrow> (rat \<times> rat) list \<Rightarrow> int list \<Rightarrow> axes
     \<Rightarrow> py_error + axes" where
  "plot_decision_boundary a K model X y ax =
     (let h = rnd a (1 / 50) in
      py_bind (np_min (map fst X)) (\<lambda>m0.
      py_bind (np_max (map fst X)) (\<lambda>M0.
      py_bind (np_min (map snd X)) (\<lambda>m1.
      py_bind (np_max (map snd X)) (\<lambda>M1.
        let x_min = rnd a (m0 - 1 / 2); x_max = rnd a (M0 + 1 / 2);
            y_min = rnd a (m1 - 1 / 2); y_max = rnd a (M1 + 1 / 2)
        in
      py_bind (np_arange a x_min x_max h) (\<lambda>gx.
      py_bind (np_arange a y_min y_max h) (\<lambda>gy.
        let (xx, yy) = np_meshgrid gx gy;
            Z = predict K model (np_c (ravel xx) (ravel yy))
        in
      py_bind (reshape (shape xx) (greater_half_astype_int Z)) (\<lambda>Z'.
        let ax1 = contourf ax xx yy Z' (3 / 10) ''coolwarm'';
            ax2 = scatter ax1 (map fst X) (map snd X) y ''k'';
            ax3 = set_xlabel ax2 ''Feature 1'';
            ax4 = set_ylabel ax3 ''Feature 2''
        in Inr ax4))))))))"

subsection \<open>The kernel state and the interactive function\<close>

text \<open>
  The state of the running notebook: the module-level arrays \<^verbatim>\<open>X\<close> and \<^verbatim>\<open>y\<close> (cell 4,
  \<^verbatim>\<open>X, y = make_moons(n_samples=500, noise=0.2, random_state=42)\<close>; the generator itself
  belongs to scikit-learn and is not embedded), the random number generator of the
  framework, and the output area: the figures it shows and whether a deferred clear is
  pending.

  IPython: \<^verbatim>\<open>clear_output(wait=True)\<close> does not clear at once: it waits until new output
  arrives and then replaces the old output with it. \<^verbatim>\<open>clear_output(wait=False)\<close> clears at once.
  \<^verbatim>\<open>plt.show()\<close> sends the figure to the output area.
\<close>

record 'r kernel =
  data_X :: "(rat \<times> rat) list"
  data_y :: "int list"
  rng :: 'r
  shown :: "figure list"
  clear_pending :: bool

definition clear_output :: "bool \<Rightarrow> 'r kernel \<Rightarrow> 'r kernel" where
  "clear_output wait st =
     (if wait then st\<lparr>clear_pending := True\<rparr> else st\<lparr>shown := [], clear_pending := False\<rparr>)"

definition plt_show :: "figure \<Rightarrow> 'r kernel \<Rightarrow> 'r kernel" where
  "plt_show fig st =
     (if clear_pending st then st\<lparr>shown := [fig], clear_pending := False\<rparr>
      else st\<lparr>shown := shown st @ [fig]\<rparr>)"

text \<open>
  Source, cell 10:
  \<^verbatim>\<open>
  def interactive_nn(neurons, activation, lr, epochs):
      clear_output(wait=True)
      model = create_model(neurons, activation, lr)
      history = model.fit(X, y, epochs=epochs, verbose=0)
      fig, axs = plt.subplots(1, 2, figsize=(12,4))

      axs[0].set_title("Decision Boundary")
      plot_decision_boundary(model, X, y, axs[0])

      axs[1].plot(history.history['loss'], color='purple')
      axs[1].set_title("Loss Curve")
      axs[1].set_xlabel('Epoch')
      axs[1].set_ylabel('Loss')

      plt.show()
  \<close>
  \<^verbatim>\<open>fit\<close> updates the model in place; the embedding returns the updated model, and the
  renderer receives that one.
\<close>

definition interactive_nn ::
  "arithmetic \<Rightarrow> ('w, 'r) framework \<Rightarrow> int \<Rightarrow> string \<Rightarrow> rat \<Rightarrow> int \<Rightarrow> 'r kernel
     \<Rightarrow> py_error + 'r kernel" where
  "interactive_nn a K neurons act lr epochs st =
     (let st1 = clear_output True st in
      py_bind (create_model K neurons act lr (rng st1)) (\<lambda>(model, r1).
      py_bind (fit K model (data_X st1) (data_y st1) epochs r1) (\<lambda>(model', hist, r2).
        let st2 = st1\<lparr>rng := r2\<rparr>;
            (fig, axs0, axs1) = subplots_1_2 (12, 4);
            axs0 = set_title axs0 ''Decision Boundary''
        in
      py_bind (plot_decision_boundary a K model' (data_X st2) (data_y st2) axs0) (\<lambda>axs0.
        let axs1 = plot axs1 (hist_loss hist) ''purple'';
            axs1 = set_title axs1 ''Loss Curve'';
            axs1 = set_xlabel axs1 ''Epoch'';
            axs1 = set_ylabel axs1 ''Loss''
        in Inr (plt_show (fig\<lparr>axs := [axs0, axs1]\<rparr>) st2)))))"

subsection \<open>The widgets\<close>

text \<open>
  Source, cell 12: four controls,
  \<^verbatim>\<open>
  neurons_slider = widgets.IntSlider(4, min=2, max=20, description='Neurons')
  activation_dropdown = widgets.Dropdown(options=['relu', 'tanh', 'sigmoid'], value='relu', ...)
  lr_slider = widgets.FloatLogSlider(0.01, base=10, min=-4, max=-1, ...)
  epochs_slider = widgets.IntSlider(100, min=50, max=500, step=50, description='Epochs')
  out = widgets.interactive_output(interactive_nn, {'neurons': neurons_slider,
      'activation': activation_dropdown, 'lr': lr_slider, 'epochs': epochs_slider})
  \<close>
  \<open>controls\<close> holds their four values. \<open>valid_controls\<close> is the set of values the
  widgets can take. ipywidgets: \<^verbatim>\<open>interactive_output\<close> observes the value of each
  control; when one changes, its observer reads all four values and, inside the output
  widget, calls \<^verbatim>\<open>clear_output(wait=True)\<close> and then the function, and returns when the
  function has returned.
\<close>

record controls =
  neurons_slider :: int
  activation_dropdown :: string
  lr_slider :: rat
  epochs_slider :: int

datatype change = Neurons int | Activation string | LearningRate rat | Epochs int

definition initial_controls :: controls where
  "initial_controls =
     \<lparr>neurons_slider = 4, activation_dropdown = ''relu'', lr_slider = 1 / 100, epochs_slider = 100\<rparr>"

definition valid_controls :: "controls \<Rightarrow> bool" where
  "valid_controls c \<longleftrightarrow>
     2 \<le> neurons_slider c \<and> neurons_slider c \<le> 20 \<and>
     activation_dropdown c \<in> set [''relu'', ''tanh'', ''sigmoid''] \<and>
     1 / 10000 \<le> lr_slider c \<and> lr_slider c \<le> 1 / 10 \<and>
     50 \<le> epochs_slider c \<and> epochs_slider c \<le> 500 \<and> epochs_slider c mod 50 = 0"

fun set_value :: "change \<Rightarrow> controls \<Rightarrow> controls" where
  "set_value (Neurons n) c = c\<lparr>neurons_slider := n\<rparr>"
| "set_value (Activation s) c = c\<lparr>activation_dropdown := s\<rparr>"
| "set_value (LearningRate l) c = c\<lparr>lr_slider := l\<rparr>"
| "set_value (Epochs e) c = c\<lparr>epochs_slider := e\<rparr>"

definition observer ::
  "arithmetic \<Rightarrow> ('w, 'r) framework \<Rightarrow> controls \<Rightarrow> 'r kernel \<Rightarrow> py_error + 'r kernel" where
  "observer a K c st =
     interactive_nn a K (neurons_slider c) (activation_dropdown c) (lr_slider c) (epochs_slider c)
       (clear_output True st)"

definition on_change ::
  "arithmetic \<Rightarrow> ('w, 'r) framework \<Rightarrow> change \<Rightarrow> controls \<times> 'r kernel
     \<Rightarrow> py_error + (controls \<times> 'r kernel)" where
  "on_change a K ch cs =
     (let c = set_value ch (fst cs)
      in py_bind (observer a K c (snd cs)) (\<lambda>st. Inr (c, st)))"

subsection \<open>Reading a result\<close>

text \<open>
  The renderer appends a filled contour and a scatter to the axes. \<open>boundary_grid\<close> and
  \<open>boundary_classes\<close> read the grid and the class map of the contour drawn last,
  \<open>boundary_samples\<close> the points and labels of the scatter drawn last.
\<close>

definition boundary_grid :: "axes \<Rightarrow> (rat ndarray \<times> rat ndarray) option" where
  "boundary_grid ax =
     (case rev (artists ax) of
        Scatter u v c e # Contourf xx yy Z al cm # rest \<Rightarrow> Some (xx, yy)
      | _ \<Rightarrow> None)"

definition boundary_classes :: "axes \<Rightarrow> int ndarray option" where
  "boundary_classes ax =
     (case rev (artists ax) of
        Scatter u v c e # Contourf xx yy Z al cm # rest \<Rightarrow> Some Z
      | _ \<Rightarrow> None)"

definition boundary_samples :: "axes \<Rightarrow> (rat list \<times> rat list \<times> int list) option" where
  "boundary_samples ax =
     (case rev (artists ax) of
        Scatter u v c e # Contourf xx yy Z al cm # rest \<Rightarrow> Some (u, v, c)
      | _ \<Rightarrow> None)"

text \<open>The model without its weights: what the configuration is said to determine.\<close>

definition architecture :: "'w keras_model \<Rightarrow> dense list \<times> optimizer option \<times> string option \<times> string list" where
  "architecture m = (layers m, optimizer m, loss m, metrics m)"

text \<open>
  The grid as section 4.3 of the specification words it: the points \<open>lo + i * step\<close>
  that lie in the range from \<open>lo\<close> to \<open>hi\<close>, \<open>hi\<close> excluded.
\<close>

definition regular_grid :: "rat \<Rightarrow> rat \<Rightarrow> rat \<Rightarrow> rat list" where
  "regular_grid lo hi step = map (\<lambda>i. lo + of_nat i * step) [0..<nat \<lceil>(hi - lo) / step\<rceil>]"

text \<open>
  What remains of the regular grid when the range is evaluated with rounding. \<open>g\<close> is an
  axis built from the bounds \<open>lo\<close>, \<open>hi\<close> and the step 0.02, and \<open>x_min\<close>, \<open>x_max\<close>, \<open>h\<close> are
  these three as the arithmetic evaluates them:
  \<^item> each of the three is within a relative \<open>2^-53\<close> of its exact value;
  \<^item> the first coordinate is \<open>x_min\<close>, and there is one when \<open>x_min < x_max\<close>;
  \<^item> the number of coordinates differs by at most one from that of the regular grid
    over \<open>x_min\<close>, \<open>x_max\<close>, \<open>h\<close> (for at most \<open>2^51\<close> coordinates);
  \<^item> coordinate \<open>i\<close> is within \<open>(i + 1) * (|x_min| + i * h) / 2^50\<close> of \<open>x_min + i * h\<close>.
\<close>

definition axis_near_regular :: "arithmetic \<Rightarrow> rat \<Rightarrow> rat \<Rightarrow> rat list \<Rightarrow> bool" where
  "axis_near_regular a lo hi g \<longleftrightarrow>
     (let x_min = rnd a lo; x_max = rnd a hi; h = rnd a (1 / 50) in
      \<bar>x_min - lo\<bar> \<le> \<bar>lo\<bar> / 2 ^ 53 \<and>
      \<bar>x_max - hi\<bar> \<le> \<bar>hi\<bar> / 2 ^ 53 \<and>
      \<bar>h - 1 / 50\<bar> \<le> (1 / 50) / 2 ^ 53 \<and>
      (g \<noteq> [] \<longrightarrow> hd g = x_min) \<and>
      (x_min < x_max \<longrightarrow> g \<noteq> []) \<and>
      ((x_max - x_min) / h \<le> 2 ^ 51 \<longrightarrow>
         \<bar>int (length g) - int (length (regular_grid x_min x_max h))\<bar> \<le> 1) \<and>
      (\<forall>i<length g.
         \<bar>g ! i - (x_min + of_nat i * h)\<bar>
           \<le> of_nat (i + 1) * (\<bar>x_min\<bar> + of_nat i * h) / 2 ^ 50))"

text \<open>
  What the renderer returns when it does not raise, written out: the axes it was given,
  with the two labels set and the contour and the scatter appended. \<open>gx\<close> and \<open>gy\<close> are
  the two ranges handed to \<^verbatim>\<open>np.meshgrid\<close>.
\<close>

definition rendered ::
  "('w, 'r) framework \<Rightarrow> 'w keras_model \<Rightarrow> (rat \<times> rat) list \<Rightarrow> int list \<Rightarrow> axes
     \<Rightarrow> rat list \<Rightarrow> rat list \<Rightarrow> axes" where
  "rendered K m X y ax gx gy =
     (let xx = fst (np_meshgrid gx gy); yy = snd (np_meshgrid gx gy) in
      ax\<lparr>xlabel := ''Feature 1'', ylabel := ''Feature 2'',
         artists := artists ax @
           [Contourf xx yy
              \<lparr>shape = (length gy, length gx),
               flat = greater_half_astype_int (predict K m (zip (flat xx) (flat yy)))\<rparr>
              (3 / 10) ''coolwarm'',
            Scatter (map fst X) (map snd X) y ''k'']\<rparr>)"

text \<open>The x coordinates of the grid a call of the renderer drew; none when it raised.\<close>

definition grid_x :: "py_error + axes \<Rightarrow> rat list" where
  "grid_x res =
     (case res of
        Inl e \<Rightarrow> []
      | Inr ax \<Rightarrow> (case boundary_grid ax of None \<Rightarrow> [] | Some g \<Rightarrow> flat (fst g)))"

text \<open>The shape (rows, columns) of the grid a call of the renderer drew; (0, 0) when it raised.\<close>

definition grid_shape :: "py_error + axes \<Rightarrow> nat \<times> nat" where
  "grid_shape res =
     (case res of
        Inl e \<Rightarrow> (0, 0)
      | Inr ax \<Rightarrow> (case boundary_grid ax of None \<Rightarrow> (0, 0) | Some g \<Rightarrow> shape (fst g)))"

text \<open>The right-hand plot of the figure: the loss curve of a history.\<close>

definition loss_curve :: "history \<Rightarrow> axes" where
  "loss_curve h =
     \<lparr>title = ''Loss Curve'', xlabel = ''Epoch'', ylabel = ''Loss'',
      artists = [Line (hist_loss h) ''purple'']\<rparr>"

subsection \<open>Concrete inputs\<close>

text \<open>
  A framework to run the embedding on: it has no weights and no randomness, every
  epoch reports the loss 1, and the network outputs the first feature of its input.
\<close>

definition demo_framework :: "(unit, unit) framework" where
  "demo_framework =
     \<lparr>activation_names = [''relu'', ''tanh'', ''sigmoid'', ''softmax'', ''linear''],
      initializer = (\<lambda>ls r. ((), r)),
      train_epoch = (\<lambda>m X y r. (((), 1, 1 / 2), r)),
      forward = (\<lambda>m p. fst p)\<rparr>"

definition demo_model :: "unit keras_model" where
  "demo_model =
     \<lparr>layers = [\<lparr>units = 4, activation = ''relu'', input_shape = Some [2]\<rparr>,
                \<lparr>units = 1, activation = ''sigmoid'', input_shape = None\<rparr>],
      weights = (), optimizer = Some (Adam (1 / 100)),
      loss = Some ''binary_crossentropy'', metrics = [''accuracy'']\<rparr>"

definition demo_kernel :: "unit kernel" where
  "demo_kernel =
     \<lparr>data_X = [(0, 0), (1, 1)], data_y = [0, 1], rng = (), shown = [], clear_pending = False\<rparr>"

text \<open>
  Two samples whose first features are the doubles \<^verbatim>\<open>0.5\<close> and \<^verbatim>\<open>0.62\<close>, as in
  \<^verbatim>\<open>X = np.array([[0.5, 0.0], [0.62, 0.0]])\<close>.
\<close>

definition samples_062 :: "(rat \<times> rat) list" where
  "samples_062 = [(1 / 2, 0), (binary64 (62 / 100), 0)]"

section \<open>Auxiliary facts\<close>

subsection \<open>Exceptions, reductions and the mesh\<close>

lemma py_bind_Inl [simp]: "py_bind (Inl e) f = Inl e"
  and py_bind_Inr [simp]: "py_bind (Inr v) f = f v"
  by (simp_all add: py_bind_def)

lemma np_min_eq: "xs \<noteq> [] \<Longrightarrow> np_min xs = Inr (Min (set xs))"
  unfolding np_min_def by (cases xs) (simp_all add: Min.set_eq_fold del: set_simps)

lemma np_max_eq: "xs \<noteq> [] \<Longrightarrow> np_max xs = Inr (Max (set xs))"
  unfolding np_max_def by (cases xs) (simp_all add: Max.set_eq_fold del: set_simps)

lemma Min_le_Max_set: "xs \<noteq> [] \<Longrightarrow> Min (set xs) \<le> Max (set xs)"
  by (simp add: Min_le_iff)

lemma length_concat_replicate: "length (concat (replicate n xs)) = n * length xs"
  by (induction n) simp_all

lemma length_concat_map_replicate: "length (concat (map (replicate k) ys)) = length ys * k"
  by (induction ys) simp_all

lemma set_concat_replicate: "n \<noteq> 0 \<Longrightarrow> set (concat (replicate n xs)) = set xs"
  by (cases n) auto

lemma meshgrid_lengths:
  "np_meshgrid gx gy = (xx, yy) \<Longrightarrow>
     shape xx = (length gy, length gx) \<and> shape yy = (length gy, length gx) \<and>
     length (flat xx) = length gy * length gx \<and> length (flat yy) = length gy * length gx"
  by (auto simp: np_meshgrid_def length_concat_replicate length_concat_map_replicate)

lemma zip_replicate_row: "zip xs (replicate (length xs) v) = map (\<lambda>u. (u, v)) xs"
  by (induction xs) simp_all

lemma zip_meshgrid:
  "zip (concat (replicate (length gy) gx)) (concat (map (replicate (length gx)) gy))
     = concat (map (\<lambda>v. map (\<lambda>u. (u, v)) gx) gy)"
  by (induction gy) (simp_all add: zip_replicate_row)

lemma set_flat_xx: "set (flat (fst (np_meshgrid gx gy))) \<subseteq> set gx"
  by (auto simp: np_meshgrid_def)

lemma set_flat_yy: "set (flat (snd (np_meshgrid gx gy))) \<subseteq> set gy"
  by (auto simp: np_meshgrid_def)

subsection \<open>Rounding to the nearest double\<close>

text \<open>
  \<open>round_half_even\<close> is monotone, odd and the identity on integers; \<open>ilog2\<close> is the
  binary exponent. From these, \<open>binary64\<close> is monotone and idempotent, which is all the
  range computation needs to know about it.
\<close>

lemma rhe_cases: "round_half_even q = \<lfloor>q\<rfloor> \<or> round_half_even q = \<lfloor>q\<rfloor> + 1"
  by (simp add: round_half_even_def Let_def)

lemma rhe_of_int: "round_half_even (of_int n) = n"
  by (simp add: round_half_even_def Let_def)

lemma rhe_mono: assumes "q \<le> q'" shows "round_half_even q \<le> round_half_even q'"
proof (cases "\<lfloor>q\<rfloor> = \<lfloor>q'\<rfloor>")
  case True
  with assms show ?thesis
    by (simp add: round_half_even_def Let_def)
next
  case False
  with assms have "\<lfloor>q\<rfloor> < \<lfloor>q'\<rfloor>" using floor_mono [of q q'] by linarith
  with rhe_cases [of q] rhe_cases [of q'] show ?thesis by linarith
qed

lemma floor_minus_nonint: assumes "q \<noteq> of_int \<lfloor>q\<rfloor>" shows "\<lfloor>- q :: rat\<rfloor> = - \<lfloor>q\<rfloor> - 1"
proof (rule floor_unique)
  have "of_int \<lfloor>q\<rfloor> < q" using assms of_int_floor_le [of q] by linarith
  then show "of_int (- \<lfloor>q\<rfloor> - 1) \<le> - q" using floor_correct [of q] by simp
  show "- q < of_int (- \<lfloor>q\<rfloor> - 1) + 1" using \<open>of_int \<lfloor>q\<rfloor> < q\<close> by simp
qed

lemma rhe_minus: "round_half_even (- q) = - round_half_even q"
proof (cases "q = of_int \<lfloor>q\<rfloor>")
  case True
  then obtain n where "q = of_int n" ..
  then show ?thesis using rhe_of_int [of n] rhe_of_int [of "- n"] by simp
next
  case False
  have fl: "\<lfloor>- q\<rfloor> = - \<lfloor>q\<rfloor> - 1" by (rule floor_minus_nonint [OF False])
  define f where "f = \<lfloor>q\<rfloor>"
  define r where "r = q - of_int f"
  have q: "q = of_int f + r" by (simp add: r_def)
  have r': "- q - of_int (- f - 1) = 1 - r" by (simp add: r_def)
  show ?thesis
    unfolding round_half_even_def Let_def fl
    unfolding f_def [symmetric] r' r_def [symmetric]
    by auto
qed

lemma ilog2_rough:
  assumes "0 < q" and "quotient_of q = (n, d)"
  shows "2 powi (bitlen n - bitlen d - 1) < q" and "q < 2 powi (bitlen n - bitlen d + 1)"
proof -
  have d: "0 < d" using assms(2) by (rule quotient_of_denom_pos)
  have q: "q = of_int n / of_int d" using assms(2) by (rule quotient_of_div)
  have n: "0 < n" using assms(1) d unfolding q by (simp add: zero_less_divide_iff)
  have bn: "1 \<le> bitlen n" and bd: "1 \<le> bitlen d"
    using n d by (simp_all add: bitlen_alt_def)
  have pn: "2 powi bitlen n = (2::rat) ^ nat (bitlen n)" "2 powi (bitlen n - 1) = (2::rat) ^ nat (bitlen n - 1)"
    and pd: "2 powi bitlen d = (2::rat) ^ nat (bitlen d)" "2 powi (bitlen d - 1) = (2::rat) ^ nat (bitlen d - 1)"
    using bn bd by (simp_all add: power_int_nonneg_exp)
  have n1: "(2::rat) powi (bitlen n - 1) \<le> of_int n" and n2: "of_int n < (2::rat) powi bitlen n"
    unfolding pn using bitlen_bounds [OF n]
    by (metis of_int_le_iff of_int_numeral of_int_power, metis of_int_less_iff of_int_numeral of_int_power)
  have d1: "(2::rat) powi (bitlen d - 1) \<le> of_int d" and d2: "of_int d < (2::rat) powi bitlen d"
    unfolding pd using bitlen_bounds [OF d]
    by (metis of_int_le_iff of_int_numeral of_int_power, metis of_int_less_iff of_int_numeral of_int_power)
  have "(2::rat) powi (bitlen n - bitlen d - 1) = 2 powi (bitlen n - 1) / 2 powi bitlen d"
    by (simp add: power_int_diff)
  also have "\<dots> < of_int n / of_int d"
    using n1 d2 d by (intro frac_less2) simp_all
  finally show "2 powi (bitlen n - bitlen d - 1) < q" unfolding q .
  have "of_int n / of_int d < (2::rat) powi bitlen n / 2 powi (bitlen d - 1)"
    using n2 d1 n by (intro frac_less) simp_all
  also have "\<dots> = 2 powi (bitlen n - bitlen d + 1)"
    by (simp add: power_int_diff power_int_add)
  finally show "q < 2 powi (bitlen n - bitlen d + 1)" unfolding q .
qed

lemma ilog2_bounds:
  assumes "q \<noteq> 0"
  shows "2 powi ilog2 q \<le> \<bar>q\<bar>" and "\<bar>q\<bar> < 2 powi (ilog2 q + 1)"
proof -
  obtain n d where nd: "quotient_of \<bar>q\<bar> = (n, d)" by (cases "quotient_of \<bar>q\<bar>")
  have pos: "0 < \<bar>q\<bar>" using assms by simp
  note r = ilog2_rough [OF pos nd]
  show "2 powi ilog2 q \<le> \<bar>q\<bar>"
    using r(1) by (simp add: ilog2_def nd Let_def)
  show "\<bar>q\<bar> < 2 powi (ilog2 q + 1)"
    using r(2) by (simp add: ilog2_def nd Let_def)
qed

lemma two_powi_less_D:
  assumes "(2::rat) powi m < 2 powi n" shows "m < n"
proof (rule ccontr)
  assume "\<not> m < n"
  then have "n \<le> m" by simp
  then have "(2::rat) powi n \<le> 2 powi m" by (rule power_int_increasing) simp
  with assms show False by linarith
qed

lemma ilog2_unique:
  assumes "2 powi e \<le> \<bar>q\<bar>" and "\<bar>q\<bar> < 2 powi (e + 1)"
  shows "ilog2 q = e"
proof -
  have q: "q \<noteq> 0"
  proof
    assume "q = 0"
    with assms(1) have "(2::rat) powi e \<le> 0" by simp
    moreover have "0 < (2::rat) powi e" by simp
    ultimately show False by linarith
  qed
  note b = ilog2_bounds [OF q]
  have "(2::rat) powi e < 2 powi (ilog2 q + 1)" using assms(1) b(2) by simp
  then have 1: "e < ilog2 q + 1" by (rule two_powi_less_D)
  have "(2::rat) powi ilog2 q < 2 powi (e + 1)" using assms(2) b(1) by simp
  then have 2: "ilog2 q < e + 1" by (rule two_powi_less_D)
  from 1 2 show ?thesis by simp
qed

lemma ilog2_minus: "ilog2 (- q) = ilog2 q"
  by (simp add: ilog2_def)

lemma ilog2_mono: assumes "0 < x" "x \<le> y" shows "ilog2 x \<le> ilog2 y"
proof -
  have x: "x \<noteq> 0" and y: "y \<noteq> 0" using assms by simp_all
  have "2 powi ilog2 x \<le> x" using ilog2_bounds(1) [OF x] assms by simp
  moreover have "y < 2 powi (ilog2 y + 1)" using ilog2_bounds(2) [OF y] assms by simp
  ultimately have "(2::rat) powi ilog2 x < 2 powi (ilog2 y + 1)" using assms by linarith
  then have "ilog2 x < ilog2 y + 1" by (rule two_powi_less_D)
  then show ?thesis by simp
qed

lemma binary64_zero: "binary64 0 = 0"
  by (simp add: binary64_def)

lemma binary64_minus: "binary64 (- q) = - binary64 q"
  by (simp add: binary64_def ilog2_minus Let_def rhe_minus)

lemma binary64_pos_range:
  assumes "0 < q"
  shows "2 powi ilog2 q \<le> binary64 q" and "binary64 q \<le> 2 powi (ilog2 q + 1)"
    and "2 ^ 52 \<le> round_half_even (q / 2 powi (ilog2 q - 52))"
    and "round_half_even (q / 2 powi (ilog2 q - 52)) \<le> 2 ^ 53"
proof -
  define e where "e = ilog2 q"
  define u :: rat where "u = 2 powi (e - 52)"
  have q0: "q \<noteq> 0" using assms by simp
  have u: "0 < u" by (simp add: u_def)
  have b: "2 powi e \<le> q" "q < 2 powi (e + 1)"
    using ilog2_bounds [OF q0] assms by (simp_all add: e_def)
  have e1: "(2::rat) powi e = 2 ^ 52 * u" and e2: "(2::rat) powi (e + 1) = 2 ^ 53 * u"
    by (simp_all add: u_def power_int_diff power_int_add)
  have "of_int (2 ^ 52) \<le> q / u" using b(1) u by (simp add: e1 pos_le_divide_eq)
  from rhe_mono [OF this] show lo: "2 ^ 52 \<le> round_half_even (q / 2 powi (ilog2 q - 52))"
    by (simp only: rhe_of_int u_def e_def)
  have "q / u \<le> of_int (2 ^ 53)" using b(2) u by (simp add: e2 pos_divide_le_eq)
  from rhe_mono [OF this] show hi: "round_half_even (q / 2 powi (ilog2 q - 52)) \<le> 2 ^ 53"
    by (simp only: rhe_of_int u_def e_def)
  have bq: "binary64 q = of_int (round_half_even (q / u)) * u"
    using q0 by (simp add: binary64_def Let_def u_def e_def)
  have "(2::rat) ^ 52 \<le> of_int (round_half_even (q / u))"
    using lo unfolding u_def e_def by (metis of_int_le_iff of_int_numeral of_int_power)
  then show "2 powi ilog2 q \<le> binary64 q"
    unfolding bq e_def [symmetric] e1 using u by simp
  have "of_int (round_half_even (q / u)) \<le> (2::rat) ^ 53"
    using hi unfolding u_def e_def by (metis of_int_le_iff of_int_numeral of_int_power)
  then show "binary64 q \<le> 2 powi (ilog2 q + 1)"
    unfolding bq e_def [symmetric] e2 using u by simp
qed

lemma binary64_pos: assumes "0 < q" shows "0 < binary64 q"
proof -
  have "0 < (2::rat) powi ilog2 q" by simp
  with binary64_pos_range(1) [OF assms] show ?thesis by linarith
qed

lemma binary64_mono_pos: assumes "0 < x" "x \<le> y" shows "binary64 x \<le> binary64 y"
proof (cases "ilog2 x = ilog2 y")
  case True
  define u :: rat where "u = 2 powi (ilog2 y - 52)"
  have u: "0 < u" by (simp add: u_def)
  have "x / u \<le> y / u" using assms u by (simp add: divide_right_mono)
  then have "round_half_even (x / u) \<le> round_half_even (y / u)" by (rule rhe_mono)
  then have "(of_int (round_half_even (x / u)) :: rat) * u \<le> of_int (round_half_even (y / u)) * u"
    using u by simp
  then show ?thesis using assms True by (simp add: binary64_def Let_def u_def)
next
  case False
  with ilog2_mono [OF assms] have "ilog2 x + 1 \<le> ilog2 y" by simp
  then have "(2::rat) powi (ilog2 x + 1) \<le> 2 powi ilog2 y" by (rule power_int_increasing) simp
  moreover have "binary64 x \<le> 2 powi (ilog2 x + 1)" using assms(1) by (rule binary64_pos_range)
  moreover have "2 powi ilog2 y \<le> binary64 y" using assms by (intro binary64_pos_range) simp
  ultimately show ?thesis by linarith
qed

lemma binary64_mono: assumes "x \<le> y" shows "binary64 x \<le> binary64 y"
proof -
  consider "0 < x" | "x \<le> 0" "0 \<le> y" | "y < 0" by linarith
  then show ?thesis
  proof cases
    case 1
    then show ?thesis using assms by (rule binary64_mono_pos)
  next
    case 2
    have "binary64 x \<le> 0"
    proof (cases "x = 0")
      case True then show ?thesis by (simp add: binary64_zero)
    next
      case False
      with 2 have "0 < - x" by simp
      from binary64_pos [OF this] show ?thesis by (simp add: binary64_minus)
    qed
    moreover have "0 \<le> binary64 y"
    proof (cases "y = 0")
      case True then show ?thesis by (simp add: binary64_zero)
    next
      case False
      with 2 have "0 < y" by simp
      from binary64_pos [OF this] show ?thesis by simp
    qed
    ultimately show ?thesis by linarith
  next
    case 3
    then have "0 < - y" "- y \<le> - x" using assms by simp_all
    from binary64_mono_pos [OF this] show ?thesis by (simp add: binary64_minus)
  qed
qed

lemma binary64_idem_pos: assumes "0 < q" shows "binary64 (binary64 q) = binary64 q"
proof -
  define e where "e = ilog2 q"
  define u :: rat where "u = 2 powi (e - 52)"
  define m where "m = round_half_even (q / u)"
  have u: "0 < u" by (simp add: u_def)
  have q0: "q \<noteq> 0" using assms by simp
  have bq: "binary64 q = of_int m * u"
    using q0 by (simp add: binary64_def Let_def u_def e_def m_def)
  have m: "2 ^ 52 \<le> m" "m \<le> 2 ^ 53"
    using binary64_pos_range(3,4) [OF assms] by (simp_all add: m_def u_def e_def)
  have e1: "(2::rat) powi e = 2 ^ 52 * u" and e2: "(2::rat) powi (e + 1) = 2 ^ 53 * u"
    and e3: "(2::rat) powi (e + 2) = 2 ^ 54 * u"
    by (simp_all add: u_def power_int_diff power_int_add)
  have mr: "(2::rat) ^ 52 \<le> of_int m" "of_int m \<le> (2::rat) ^ 53"
    using m by (metis of_int_le_iff of_int_numeral of_int_power)+
  have r0: "of_int m * u \<noteq> 0" using mr u by auto
  show ?thesis
  proof (cases "m = 2 ^ 53")
    case True
    have r: "of_int m * u = 2 powi (e + 1)" by (simp add: True e2)
    have "ilog2 (2 powi (e + 1)) = e + 1"
      by (rule ilog2_unique) (simp_all add: power_int_add)
    then have "binary64 (2 powi (e + 1)) = of_int (round_half_even (of_int (2 ^ 52))) * (2 * u)"
      by (simp add: binary64_def Let_def u_def power_int_diff power_int_add)
    then show ?thesis unfolding bq r rhe_of_int by (simp add: e2)
  next
    case False
    with m have "m < 2 ^ 53" by simp
    then have "of_int m < (2::rat) ^ 53"
      by (metis of_int_less_iff of_int_numeral of_int_power)
    then have "ilog2 (of_int m * u) = e"
      using mr(1) u by (intro ilog2_unique) (simp_all add: e1 e2 abs_mult)
    then have "binary64 (of_int m * u) = of_int (round_half_even (of_int m)) * u"
      using r0 u by (simp add: binary64_def Let_def u_def)
    then show ?thesis unfolding bq rhe_of_int .
  qed
qed

lemma binary64_idem: "binary64 (binary64 q) = binary64 q"
proof -
  consider "0 < q" | "q = 0" | "q < 0" by linarith
  then show ?thesis
  proof cases
    case 1 then show ?thesis by (rule binary64_idem_pos)
  next
    case 2 then show ?thesis by (simp add: binary64_zero)
  next
    case 3
    then have "0 < - q" by simp
    from binary64_idem_pos [OF this] show ?thesis by (simp add: binary64_minus)
  qed
qed

lemma rnd_mono: "x \<le> y \<Longrightarrow> rnd a x \<le> rnd a y"
  by (cases a) (simp_all add: binary64_mono)

lemma rnd_idem: "rnd a (rnd a x) = rnd a x"
  by (cases a) (simp_all add: binary64_idem)

lemma rnd_zero: "rnd a 0 = 0"
  by (cases a) (simp_all add: binary64_zero)

lemma rnd_nonneg: "0 \<le> q \<Longrightarrow> 0 \<le> rnd a q"
  using rnd_mono [of 0 q a] by (simp add: rnd_zero)

lemma rnd_pos: "0 < q \<Longrightarrow> 0 < rnd a q"
  by (cases a) (simp_all add: binary64_pos)

lemma rhe_error: "\<bar>of_int (round_half_even q) - q\<bar> \<le> 1 / 2"
proof -
  define f where "f = \<lfloor>q\<rfloor>"
  define r where "r = q - of_int f"
  have r: "0 \<le> r" "r < 1" unfolding r_def f_def by linarith+
  have q: "q = of_int f + r" by (simp add: r_def)
  show ?thesis
    unfolding round_half_even_def Let_def f_def [symmetric] r_def [symmetric]
    using r by (auto simp add: q abs_if)
qed

lemma binary64_error_pos:
  assumes "0 < q"
  shows "\<bar>binary64 q - q\<bar> \<le> q / 2 ^ 53"
proof -
  define e where "e = ilog2 q"
  define u :: rat where "u = 2 powi (e - 52)"
  have q0: "q \<noteq> 0" using assms by simp
  have u: "0 < u" by (simp add: u_def)
  have lo: "2 powi e \<le> q" using ilog2_bounds(1) [OF q0] assms by (simp add: e_def)
  have e1: "(2::rat) powi e = 2 ^ 52 * u" by (simp add: u_def power_int_diff)
  have bq: "binary64 q = of_int (round_half_even (q / u)) * u"
    using q0 by (simp add: binary64_def Let_def u_def e_def)
  have "binary64 q - q = (of_int (round_half_even (q / u)) - q / u) * u"
    using u by (simp add: bq algebra_simps)
  then have "\<bar>binary64 q - q\<bar> = \<bar>of_int (round_half_even (q / u)) - q / u\<bar> * u"
    using u by (simp add: abs_mult)
  also have "\<dots> \<le> 1 / 2 * u"
    using rhe_error [of "q / u"] u by (intro mult_right_mono) simp_all
  also have "\<dots> = 2 powi e / 2 ^ 53" by (simp add: e1)
  also have "\<dots> \<le> q / 2 ^ 53" using lo by (simp add: divide_right_mono)
  finally show ?thesis .
qed

lemma binary64_error: "\<bar>binary64 q - q\<bar> \<le> \<bar>q\<bar> / 2 ^ 53"
proof -
  consider "0 < q" | "q = 0" | "q < 0" by linarith
  then show ?thesis
  proof cases
    case 1 then show ?thesis using binary64_error_pos [of q] by simp
  next
    case 2 then show ?thesis by (simp add: binary64_zero)
  next
    case 3
    then have "0 < - q" by simp
    from binary64_error_pos [OF this] have "\<bar>- binary64 q + q\<bar> \<le> - q / 2 ^ 53"
      by (simp add: binary64_minus)
    moreover have "\<bar>- binary64 q + q\<bar> = \<bar>binary64 q - q\<bar>" by (simp add: abs_if)
    ultimately show ?thesis using 3 by simp
  qed
qed

lemma rnd_error: "\<bar>rnd a q - q\<bar> \<le> \<bar>q\<bar> / 2 ^ 53"
proof (cases a)
  case Exact
  then show ?thesis by simp
next
  case Binary64
  then show ?thesis using binary64_error [of q] by (simp only: rnd.simps)
qed

lemma rnd_error_le:
  assumes "\<bar>q\<bar> \<le> b"
  shows "\<bar>rnd a q - q\<bar> \<le> b / 2 ^ 53"
proof -
  have "\<bar>q\<bar> / 2 ^ 53 \<le> b / 2 ^ 53" by (rule divide_right_mono [OF assms]) simp
  with rnd_error [of a q] show ?thesis by linarith
qed

lemma binary64_step: "binary64 (1 / 50) = 5764607523034235 / 288230376151711744"
  by code_simp

lemma rnd_step_pos: "0 < rnd a (1 / 50)"
  by (cases a) (simp_all add: binary64_step)

subsection \<open>The range\<close>

lemma arange_item_lower:
  assumes "rnd a start = start" and "0 \<le> step"
  shows "start \<le> arange_item a start step i"
proof -
  define nxt where "nxt = rnd a (start + step)"
  define delta where "delta = rnd a (nxt - start)"
  have "rnd a start \<le> nxt" unfolding nxt_def using assms(2) by (intro rnd_mono) simp
  then have nxt: "start \<le> nxt" by (simp add: assms(1))
  then have "rnd a 0 \<le> delta" unfolding delta_def by (intro rnd_mono) simp
  then have delta: "0 \<le> delta" by (simp add: rnd_zero)
  have "rnd a 0 \<le> rnd a (of_nat i * delta)" using delta by (intro rnd_mono) simp
  then have "rnd a start \<le> rnd a (start + rnd a (of_nat i * delta))"
    by (intro rnd_mono) (simp add: rnd_zero)
  then have far: "start \<le> rnd a (start + rnd a (of_nat i * delta))" by (simp add: assms(1))
  show ?thesis
    using nxt far by (simp add: arange_item_def Let_def nxt_def [symmetric] delta_def [symmetric])
qed

lemma np_arange_lower:
  assumes "np_arange a (rnd a lo) stop step = Inr g" and "0 < step" and "v \<in> set g"
  shows "rnd a lo \<le> v"
proof -
  from assms(1,2) have "g = map (arange_item a (rnd a lo) step) [0..<arange_length a (rnd a lo) stop step]"
    by (simp add: np_arange_def)
  with assms(3) obtain i where "v = arange_item a (rnd a lo) step i" by auto
  then show ?thesis using arange_item_lower [of a "rnd a lo" step i] assms(2) by (simp add: rnd_idem)
qed

lemma arange_item_exact: "arange_item Exact start step i = start + of_nat i * step"
  by (simp add: arange_item_def Let_def)

lemma np_arange_exact:
  "step \<noteq> 0 \<Longrightarrow> np_arange Exact start stop step = Inr (regular_grid start stop step)"
  by (simp add: np_arange_def regular_grid_def arange_length_def arange_item_exact)

lemma regular_grid_range:
  assumes "0 < step" and "v \<in> set (regular_grid lo hi step)"
  shows "lo \<le> v" and "v < hi"
proof -
  from assms(2) obtain i where i: "i < nat \<lceil>(hi - lo) / step\<rceil>" and v: "v = lo + of_nat i * step"
    by (auto simp: regular_grid_def)
  show "lo \<le> v" using assms(1) by (simp add: v)
  from i have "int i < \<lceil>(hi - lo) / step\<rceil>" by simp
  then have "of_int (int i) < (hi - lo) / step" by (simp only: less_ceiling_iff)
  then have "of_nat i * step < hi - lo" using assms(1) by (simp add: pos_less_divide_eq)
  then show "v < hi" by (simp add: v)
qed

lemma regular_grid_first:
  assumes "0 < step" and "lo < hi"
  shows "regular_grid lo hi step \<noteq> []" and "hd (regular_grid lo hi step) = lo"
proof -
  have "0 < (hi - lo) / step" using assms by simp
  then have "0 < \<lceil>(hi - lo) / step\<rceil>" by (simp only: less_ceiling_iff of_int_0)
  then have n: "0 < nat \<lceil>(hi - lo) / step\<rceil>" by simp
  then show "regular_grid lo hi step \<noteq> []" by (simp add: regular_grid_def)
  from n show "hd (regular_grid lo hi step) = lo"
    by (simp add: regular_grid_def hd_map upt_conv_Cons)
qed

lemma axis_nonempty_exact:
  assumes "vs \<noteq> []"
  shows "regular_grid (Min (set vs) - 1 / 2) (Max (set vs) + 1 / 2) (1 / 50) \<noteq> []"
proof -
  have "Min (set vs) \<le> Max (set vs)" using assms by (rule Min_le_Max_set)
  then have "Min (set vs) - 1 / 2 < Max (set vs) + 1 / 2" by simp
  then show ?thesis by (intro regular_grid_first) simp_all
qed

lemma exact_axis_upper:
  assumes "np_arange Exact lo hi (1 / 50) = Inr g" and "v \<in> set g"
  shows "v < hi"
proof -
  have "g = regular_grid lo hi (1 / 50)" using assms(1) by (simp add: np_arange_exact)
  with assms(2) have "v \<in> set (regular_grid lo hi (1 / 50))" by simp
  then show ?thesis by (rule regular_grid_range(2) [rotated]) simp
qed

lemma exact_axis_nonempty:
  assumes "vs \<noteq> []"
    and "np_arange Exact (Min (set vs) - 1 / 2) (Max (set vs) + 1 / 2) (1 / 50) = Inr g"
  shows "g \<noteq> []"
proof -
  have "g = regular_grid (Min (set vs) - 1 / 2) (Max (set vs) + 1 / 2) (1 / 50)"
    using assms(2) by (simp add: np_arange_exact)
  then show ?thesis using axis_nonempty_exact [OF assms(1)] by simp
qed

lemma arange_length_pos:
  assumes "0 < step" and "start < stop"
  shows "0 < arange_length a start stop step"
proof -
  have "0 < rnd a (stop - start)" using assms(2) by (intro rnd_pos) simp
  then have "0 < rnd a (stop - start) / step" using assms(1) by simp
  then have "0 < rnd a (rnd a (stop - start) / step)" by (rule rnd_pos)
  then have "0 < \<lceil>rnd a (rnd a (stop - start) / step)\<rceil>" by (simp only: less_ceiling_iff of_int_0)
  then show ?thesis by (simp add: arange_length_def)
qed

lemma arange_length_near:
  assumes step: "0 < step" and ord: "start \<le> stop" and small: "(stop - start) / step \<le> 2 ^ 51"
  shows "\<bar>int (arange_length a start stop step) - int (length (regular_grid start stop step))\<bar> \<le> 1"
proof -
  define d where "d = stop - start"
  define r where "r = d / step"
  define q where "q = rnd a d / step"
  define q' where "q' = rnd a q"
  have d: "0 \<le> d" using ord by (simp add: d_def)
  have r: "0 \<le> r" "r \<le> 2 ^ 51" using d step small by (simp_all add: r_def d_def)
  have d': "0 \<le> rnd a d" using d by (rule rnd_nonneg)
  have qn: "0 \<le> q" using d' step by (simp add: q_def)
  have e1: "\<bar>rnd a d - d\<bar> \<le> d / 2 ^ 53" using rnd_error [of a d] d by simp
  have e2: "\<bar>rnd a d - d\<bar> / step \<le> d / 2 ^ 53 / step"
    by (rule divide_right_mono [OF e1]) (use step in simp)
  have e3: "\<bar>q - r\<bar> = \<bar>rnd a d - d\<bar> / step"
    using step by (simp add: q_def r_def diff_divide_distrib [symmetric])
  have e4: "d / 2 ^ 53 / step = r / 2 ^ 53" by (simp add: r_def)
  have qr: "\<bar>q - r\<bar> \<le> r / 2 ^ 53" using e2 unfolding e3 e4 .
  have "r / 2 ^ 53 \<le> r" using r(1) by (simp add: field_simps)
  with qr have q2: "q \<le> 2 * r" by linarith
  have e5: "\<bar>q' - q\<bar> \<le> q / 2 ^ 53" using rnd_error [of a q] qn by (simp add: q'_def)
  have e6: "q / 2 ^ 53 \<le> 2 * r / 2 ^ 53" by (rule divide_right_mono [OF q2]) simp
  have e7: "\<bar>q' - r\<bar> \<le> 3 * r / 2 ^ 53" using e5 e6 qr by linarith
  have e8: "3 * r / 2 ^ 53 \<le> 3 * 2 ^ 51 / 2 ^ 53"
    by (rule divide_right_mono) (use r(2) in simp_all)
  have e9: "3 * 2 ^ 51 / 2 ^ 53 < (1::rat)" by simp
  have close: "\<bar>q' - r\<bar> < 1" using e7 e8 e9 by linarith
  have "q' < of_int (\<lceil>r\<rceil> + 1)" using close le_of_int_ceiling [of r] by simp linarith
  then have up: "\<lceil>q'\<rceil> \<le> \<lceil>r\<rceil> + 1" by (simp only: ceiling_le less_imp_le)
  have "r < of_int (\<lceil>q'\<rceil> + 1)" using close le_of_int_ceiling [of q'] by simp linarith
  then have lo: "\<lceil>r\<rceil> \<le> \<lceil>q'\<rceil> + 1" by (simp only: ceiling_le less_imp_le)
  define m where "m = \<lceil>q'\<rceil>"
  define n where "n = \<lceil>r\<rceil>"
  have al: "arange_length a start stop step = nat m"
    by (simp add: arange_length_def q'_def q_def d_def m_def)
  have rl: "length (regular_grid start stop step) = nat n"
    by (simp add: regular_grid_def r_def d_def n_def)
  have "\<bar>int (nat m) - int (nat n)\<bar> \<le> 1"
    using up lo unfolding m_def [symmetric] n_def [symmetric] by linarith
  then show ?thesis by (simp only: al rl)
qed

lemma arange_item_near:
  assumes rep: "rnd a start = start" and step: "0 \<le> step"
  shows "\<bar>arange_item a start step i - (start + of_nat i * step)\<bar>
           \<le> of_nat (i + 1) * (\<bar>start\<bar> + of_nat i * step) / 2 ^ 50"
proof -
  define A where "A = \<bar>start\<bar>"
  define n :: rat where "n = of_nat i"
  define nxt where "nxt = rnd a (start + step)"
  define delta where "delta = rnd a (nxt - start)"
  define p where "p = rnd a (n * delta)"
  define item where "item = rnd a (start + p)"
  have A: "0 \<le> A" by (simp add: A_def)
  have n: "0 \<le> n" by (simp add: n_def)
  have rhs: "0 \<le> (n + 1) * (A + n * step)" using A n step by simp
  have "rnd a start \<le> nxt" unfolding nxt_def using step by (intro rnd_mono) simp
  then have nxt_ge: "start \<le> nxt" by (simp add: rep)
  have "\<bar>start + step\<bar> \<le> A + step" using step by (simp add: A_def)
  then have e1: "\<bar>nxt - (start + step)\<bar> \<le> (A + step) / 2 ^ 53"
    unfolding nxt_def by (rule rnd_error_le)
  have small: "(A + step) / 2 ^ 53 \<le> A + step" using A step by (simp add: field_simps)
  have gap: "0 \<le> nxt - start" "nxt - start \<le> A + 2 * step"
    using nxt_ge e1 small by linarith+
  have "\<bar>nxt - start\<bar> \<le> A + 2 * step" using gap by simp
  then have e2: "\<bar>delta - (nxt - start)\<bar> \<le> (A + 2 * step) / 2 ^ 53"
    unfolding delta_def by (rule rnd_error_le)
  have dn: "0 \<le> delta" unfolding delta_def using gap(1) by (rule rnd_nonneg)
  have "\<bar>delta - step\<bar> \<le> (A + 2 * step) / 2 ^ 53 + (A + step) / 2 ^ 53"
    using e1 e2 by linarith
  then have e3: "\<bar>delta - step\<bar> \<le> (2 * A + 3 * step) / 2 ^ 53"
    by (simp add: add_divide_distrib [symmetric])
  have "(2 * A + 3 * step) / 2 ^ 53 \<le> A + step" using A step by (simp add: field_simps)
  with e3 have dup: "delta \<le> A + 2 * step" by linarith
  show ?thesis
  proof (cases "i < 2")
    case True
    then consider "i = 0" | "i = 1" by linarith
    then show ?thesis
    proof cases
      case 1
      then show ?thesis by (simp add: arange_item_def Let_def)
    next
      case 2
      have "(A + step) / 2 ^ 53 \<le> 2 * (A + step) / 2 ^ 50" using A step by (simp add: field_simps)
      with e1 have "\<bar>nxt - (start + step)\<bar> \<le> 2 * (A + step) / 2 ^ 50" by linarith
      then show ?thesis using 2 by (simp add: arange_item_def Let_def nxt_def A_def)
    qed
  next
    case False
    then have n2: "2 \<le> n" by (simp add: n_def)
    have it: "arange_item a start step i = item"
      using False by (simp add: arange_item_def Let_def item_def p_def delta_def nxt_def n_def)
    have nd: "0 \<le> n * delta" using n dn by simp
    have ndup: "n * delta \<le> n * (A + 2 * step)" using dup n by (rule mult_left_mono)
    have "\<bar>n * delta\<bar> \<le> n * (A + 2 * step)" using nd ndup by simp
    then have e4: "\<bar>p - n * delta\<bar> \<le> n * (A + 2 * step) / 2 ^ 53"
      unfolding p_def by (rule rnd_error_le)
    have "n * (A + 2 * step) / 2 ^ 53 \<le> n * (A + 2 * step)"
      using n A step by (simp add: field_simps)
    with e4 ndup nd have pb: "\<bar>p\<bar> \<le> 2 * (n * (A + 2 * step))" by linarith
    have "\<bar>start + p\<bar> \<le> A + 2 * (n * (A + 2 * step))" using pb by (simp add: A_def)
    then have e5: "\<bar>item - (start + p)\<bar> \<le> (A + 2 * (n * (A + 2 * step))) / 2 ^ 53"
      unfolding item_def by (rule rnd_error_le)
    have "\<bar>n * delta - n * step\<bar> = n * \<bar>delta - step\<bar>"
      using n by (simp add: abs_mult right_diff_distrib [symmetric])
    also have "\<dots> \<le> n * ((2 * A + 3 * step) / 2 ^ 53)" using e3 n by (rule mult_left_mono)
    finally have e6: "\<bar>n * delta - n * step\<bar> \<le> n * (2 * A + 3 * step) / 2 ^ 53" by simp
    have "\<bar>item - (start + n * step)\<bar>
            \<le> (A + 2 * (n * (A + 2 * step))) / 2 ^ 53 + n * (A + 2 * step) / 2 ^ 53
               + n * (2 * A + 3 * step) / 2 ^ 53"
      using e4 e5 e6 by linarith
    also have "\<dots> = (A * (1 + 5 * n) + 9 * (n * step)) / 2 ^ 53"
      by (simp add: algebra_simps add_divide_distrib [symmetric])
    also have "\<dots> \<le> 8 * ((n + 1) * (A + n * step)) / 2 ^ 53"
    proof (rule divide_right_mono)
      have "0 \<le> n * A" using n A by simp
      moreover have "n * step \<le> n * (n * step)"
      proof -
        have "0 \<le> n * step" using n step by simp
        then have "1 * (n * step) \<le> n * (n * step)" using n2 by (intro mult_right_mono) simp_all
        then show ?thesis by simp
      qed
      moreover have "0 \<le> n * step" using n step by simp
      ultimately show "A * (1 + 5 * n) + 9 * (n * step) \<le> 8 * ((n + 1) * (A + n * step))"
        using A by (simp add: algebra_simps)
    qed simp
    also have "\<dots> = (n + 1) * (A + n * step) / 2 ^ 50" by simp
    finally have fin: "\<bar>item - (start + n * step)\<bar> \<le> (n + 1) * (A + n * step) / 2 ^ 50" .
    have cast: "(of_nat (i + 1) :: rat) = of_nat i + 1" by simp
    show ?thesis unfolding it cast using fin [unfolded n_def A_def] .
  qed
qed

lemma np_arange_near_regular:
  assumes ord: "lo \<le> hi"
    and g: "np_arange a (rnd a lo) (rnd a hi) (rnd a (1 / 50)) = Inr g"
  shows "axis_near_regular a lo hi g"
proof -
  let ?lo = "rnd a lo" and ?hi = "rnd a hi" and ?h = "rnd a (1 / 50)"
  have h: "0 < ?h" by (rule rnd_step_pos)
  have gm: "g = map (arange_item a ?lo ?h) [0..<arange_length a ?lo ?hi ?h]"
    using g h by (simp add: np_arange_def)
  have len: "length g = arange_length a ?lo ?hi ?h" by (simp add: gm)
  have ord': "?lo \<le> ?hi" using ord by (rule rnd_mono)
  have b1: "\<bar>?lo - lo\<bar> \<le> \<bar>lo\<bar> / 2 ^ 53" by (rule rnd_error)
  have b2: "\<bar>?hi - hi\<bar> \<le> \<bar>hi\<bar> / 2 ^ 53" by (rule rnd_error)
  have b3: "\<bar>?h - 1 / 50\<bar> \<le> (1 / 50) / 2 ^ 53" using rnd_error [of a "1 / 50"] by simp
  have first: "hd g = ?lo" if "g \<noteq> []"
  proof -
    from that have "0 < arange_length a ?lo ?hi ?h" by (simp add: len [symmetric])
    then show ?thesis by (simp add: gm hd_map upt_conv_Cons arange_item_def Let_def)
  qed
  have ne: "g \<noteq> []" if "?lo < ?hi"
  proof -
    have "0 < arange_length a ?lo ?hi ?h" using h that by (rule arange_length_pos)
    then show ?thesis by (simp add: len [symmetric])
  qed
  have cnt: "\<bar>int (length g) - int (length (regular_grid ?lo ?hi ?h))\<bar> \<le> 1"
    if "(?hi - ?lo) / ?h \<le> 2 ^ 51"
    unfolding len using h ord' that by (rule arange_length_near)
  have pos: "\<bar>g ! i - (?lo + of_nat i * ?h)\<bar>
           \<le> of_nat (i + 1) * (\<bar>?lo\<bar> + of_nat i * ?h) / 2 ^ 50" if "i < length g" for i
  proof -
    have "g ! i = arange_item a ?lo ?h i" using that by (simp add: gm)
    moreover have "rnd a ?lo = ?lo" by (rule rnd_idem)
    moreover have "0 \<le> ?h" using h by simp
    ultimately show ?thesis using arange_item_near [of a ?lo ?h i] by simp
  qed
  show ?thesis
    unfolding axis_near_regular_def Let_def
    using b1 b2 b3 first ne cnt pos by blast
qed

subsection \<open>The factory and the trainer\<close>

lemma create_model_eq:
  assumes "0 < n" and "act \<in> set (activation_names K)" and "''sigmoid'' \<in> set (activation_names K)"
  shows "create_model K n act lr r =
     Inr (\<lparr>layers = [\<lparr>units = n, activation = act, input_shape = Some [2]\<rparr>,
                     \<lparr>units = 1, activation = ''sigmoid'', input_shape = None\<rparr>],
           weights = fst (initializer K [\<lparr>units = n, activation = act, input_shape = Some [2]\<rparr>,
                                         \<lparr>units = 1, activation = ''sigmoid'', input_shape = None\<rparr>] r),
           optimizer = Some (Adam lr), loss = Some ''binary_crossentropy'', metrics = [''accuracy'']\<rparr>,
          snd (initializer K [\<lparr>units = n, activation = act, input_shape = Some [2]\<rparr>,
                              \<lparr>units = 1, activation = ''sigmoid'', input_shape = None\<rparr>] r))"
  using assms
  by (simp add: create_model_def Dense_def Sequential_def compile_def Let_def split_beta)

lemma fit_epochs_history:
  "fit_epochs K X y n m r = (m', h, r') \<Longrightarrow>
     length (hist_loss h) = n \<and> length (hist_accuracy h) = n \<and> architecture m' = architecture m"
proof (induction n arbitrary: m r m' h r')
  case 0
  then show ?case by auto
next
  case (Suc n)
  obtain w l acc r1 where te: "train_epoch K m X y r = ((w, l, acc), r1)"
    by (metis prod_cases3 surj_pair)
  obtain m2 h2 r2 where fe: "fit_epochs K X y n (m\<lparr>weights := w\<rparr>) r1 = (m2, h2, r2)"
    by (metis prod_cases3)
  from Suc.prems have eq: "m' = m2" "h = \<lparr>hist_loss = l # hist_loss h2, hist_accuracy = acc # hist_accuracy h2\<rparr>"
    by (simp_all add: te fe)
  from Suc.IH [OF fe] show ?case
    by (simp add: eq architecture_def)
qed

lemma fit_eq:
  assumes "X \<noteq> []" and "length X = length y"
  shows "fit K m X y e r = Inr (fit_epochs K X y (nat e) m r)"
  using assms by (simp add: fit_def)

subsection \<open>The renderer, in closed form\<close>

text \<open>
  On a sample set that is not empty the renderer does not raise, and its result is
  \<open>rendered\<close> on the two ranges built from the extreme features.
\<close>

lemma plot_decision_boundary_eq:
  assumes "X \<noteq> []"
  shows "\<exists>gx gy.
     np_arange a (rnd a (Min (fst ` set X) - 1 / 2)) (rnd a (Max (fst ` set X) + 1 / 2)) (rnd a (1 / 50)) = Inr gx \<and>
     np_arange a (rnd a (Min (snd ` set X) - 1 / 2)) (rnd a (Max (snd ` set X) + 1 / 2)) (rnd a (1 / 50)) = Inr gy \<and>
     plot_decision_boundary a K m X y ax = Inr (rendered K m X y ax gx gy)"
proof -
  have h: "rnd a (1 / 50) \<noteq> 0" using rnd_step_pos [of a] by simp
  obtain gx where gx: "np_arange a (rnd a (Min (fst ` set X) - 1 / 2)) (rnd a (Max (fst ` set X) + 1 / 2)) (rnd a (1 / 50)) = Inr gx"
    using h by (simp add: np_arange_def)
  obtain gy where gy: "np_arange a (rnd a (Min (snd ` set X) - 1 / 2)) (rnd a (Max (snd ` set X) + 1 / 2)) (rnd a (1 / 50)) = Inr gy"
    using h by (simp add: np_arange_def)
  obtain xx yy where m: "np_meshgrid gx gy = (xx, yy)" by (cases "np_meshgrid gx gy")
  note ml = meshgrid_lengths [OF m]
  have "plot_decision_boundary a K m X y ax = Inr (rendered K m X y ax gx gy)"
    unfolding plot_decision_boundary_def rendered_def
    using assms gx gy m ml
    by (simp add: np_min_eq np_max_eq Let_def reshape_def greater_half_astype_int_def predict_def
        np_c_def ravel_def contourf_def scatter_def set_xlabel_def set_ylabel_def)
  with gx gy show ?thesis by blast
qed

lemma boundary_grid_rendered: "boundary_grid (rendered K m X y ax gx gy) = Some (np_meshgrid gx gy)"
  by (simp add: boundary_grid_def rendered_def Let_def)

lemma boundary_classes_rendered:
  "boundary_classes (rendered K m X y ax gx gy) =
     Some \<lparr>shape = (length gy, length gx),
           flat = greater_half_astype_int (map (forward K m) (concat (map (\<lambda>v. map (\<lambda>u. (u, v)) gx) gy)))\<rparr>"
  by (simp add: boundary_classes_def rendered_def Let_def predict_def np_meshgrid_def zip_meshgrid)

lemma boundary_samples_rendered:
  "boundary_samples (rendered K m X y ax gx gy) = Some (map fst X, map snd X, y)"
  by (simp add: boundary_samples_def rendered_def Let_def)

subsection \<open>The interactive function, in closed form\<close>

lemma interactive_nn_eq:
  assumes cm: "create_model K n act lr (rng st) = Inr (model, r1)"
    and X: "data_X st \<noteq> []" "length (data_X st) = length (data_y st)"
    and fe: "fit_epochs K (data_X st) (data_y st) (nat e) model r1 = (model', hist, r2)"
    and pl: "plot_decision_boundary a K model' (data_X st) (data_y st)
               (set_title new_axes ''Decision Boundary'') = Inr ax0"
  shows "interactive_nn a K n act lr e st =
     Inr (st\<lparr>rng := r2,
             shown := [\<lparr>figsize = (12, 4), axs = [ax0, loss_curve hist]\<rparr>],
             clear_pending := False\<rparr>)"
  using cm X fe pl
  by (simp add: interactive_nn_def clear_output_def fit_eq subplots_1_2_def plt_show_def
      loss_curve_def plot_def set_title_def set_xlabel_def set_ylabel_def new_axes_def Let_def)

lemma pipeline_run:
  assumes n: "0 < n" and act: "act \<in> set (activation_names K)"
    and sg: "''sigmoid'' \<in> set (activation_names K)"
    and X: "data_X st \<noteq> []" "length (data_X st) = length (data_y st)"
  shows "\<exists>model r1 model' hist r2 gx gy.
     create_model K n act lr (rng st) = Inr (model, r1) \<and>
     fit K model (data_X st) (data_y st) e r1 = Inr (model', hist, r2) \<and>
     length (hist_loss hist) = nat e \<and>
     np_arange a (rnd a (Min (fst ` set (data_X st)) - 1 / 2))
       (rnd a (Max (fst ` set (data_X st)) + 1 / 2)) (rnd a (1 / 50)) = Inr gx \<and>
     np_arange a (rnd a (Min (snd ` set (data_X st)) - 1 / 2))
       (rnd a (Max (snd ` set (data_X st)) + 1 / 2)) (rnd a (1 / 50)) = Inr gy \<and>
     plot_decision_boundary a K model' (data_X st) (data_y st)
       (set_title new_axes ''Decision Boundary'')
       = Inr (rendered K model' (data_X st) (data_y st)
                (set_title new_axes ''Decision Boundary'') gx gy) \<and>
     interactive_nn a K n act lr e st =
       Inr (st\<lparr>rng := r2,
               shown := [\<lparr>figsize = (12, 4),
                          axs = [rendered K model' (data_X st) (data_y st)
                                   (set_title new_axes ''Decision Boundary'') gx gy,
                                 loss_curve hist]\<rparr>],
               clear_pending := False\<rparr>)"
proof -
  from create_model_eq [OF n act sg, of lr "rng st"]
  obtain model r1 where cm: "create_model K n act lr (rng st) = Inr (model, r1)" by blast
  obtain model' hist r2 where
    fe: "fit_epochs K (data_X st) (data_y st) (nat e) model r1 = (model', hist, r2)"
    by (metis prod_cases3)
  have ft: "fit K model (data_X st) (data_y st) e r1 = Inr (model', hist, r2)"
    using X fe by (simp add: fit_eq)
  have len: "length (hist_loss hist) = nat e" using fit_epochs_history [OF fe] by simp
  from plot_decision_boundary_eq [OF X(1), of a K model' "data_y st" "set_title new_axes ''Decision Boundary''"]
  obtain gx gy where
    gx: "np_arange a (rnd a (Min (fst ` set (data_X st)) - 1 / 2))
       (rnd a (Max (fst ` set (data_X st)) + 1 / 2)) (rnd a (1 / 50)) = Inr gx"
    and gy: "np_arange a (rnd a (Min (snd ` set (data_X st)) - 1 / 2))
       (rnd a (Max (snd ` set (data_X st)) + 1 / 2)) (rnd a (1 / 50)) = Inr gy"
    and pl: "plot_decision_boundary a K model' (data_X st) (data_y st)
       (set_title new_axes ''Decision Boundary'')
       = Inr (rendered K model' (data_X st) (data_y st)
                (set_title new_axes ''Decision Boundary'') gx gy)"
    by blast
  note run = interactive_nn_eq [OF cm X fe pl]
  show ?thesis
    using cm ft len gx gy pl run by blast
qed

subsection \<open>The concrete inputs\<close>

lemma demo_names:
  "set [''relu'', ''tanh'', ''sigmoid''] \<subseteq> set (activation_names demo_framework)"
  by (simp add: demo_framework_def)

lemma demo_data:
  "data_X demo_kernel \<noteq> []" "length (data_X demo_kernel) = length (data_y demo_kernel)"
  by (simp_all add: demo_kernel_def)

lemma demo_bounds:
  "rnd Binary64 (Min (fst ` set [(0, 0), (1, 1 :: rat)]) - 1 / 2) = - (1 / 2)"
  "rnd Binary64 (Max (fst ` set [(0, 0), (1, 1 :: rat)]) + 1 / 2) = 3 / 2"
  "rnd Binary64 (Min (snd ` set [(0 :: rat, 0), (1, 1)]) - 1 / 2) = - (1 / 2)"
  "rnd Binary64 (Max (snd ` set [(0 :: rat, 0), (1, 1)]) + 1 / 2) = 3 / 2"
  by code_simp+

lemma demo_regular_length:
  "length (regular_grid (- (1 / 2)) (3 / 2) (rnd Binary64 (1 / 50))) = 100"
  by code_simp

lemma demo_columns_small:
  "(3 / 2 - - (1 / 2)) / rnd Binary64 (1 / 50) \<le> 2 ^ 51"
  by code_simp

text \<open>The doubles met when the renderer runs on \<open>samples_062\<close>.\<close>

lemma binary64_062: "binary64 (31 / 50) = 5584463537939415 / 9007199254740992"
  by code_simp

lemma binary64_112: "binary64 (5584463537939415 / 9007199254740992 + 1 / 2) = 1261007895663739 / 1125899906842624"
  by code_simp

lemma arange_length_112: "arange_length Binary64 0 (1261007895663739 / 1125899906842624) (5764607523034235 / 288230376151711744) = 57"
  by code_simp

lemma arange_item_56: "arange_item Binary64 0 (5764607523034235 / 288230376151711744) 56 = 1261007895663739 / 1125899906842624"
  by code_simp

lemma arange_length_unit: "arange_length Binary64 (- (1 / 2)) (1 / 2) (5764607523034235 / 288230376151711744) = 50"
  by code_simp

section \<open>The boundary renderer\<close>

text \<open>
  C2, as amended. For every sample set of at least one sample, the grid the renderer
  builds is the mesh of two ranges: on each axis \<^verbatim>\<open>np.arange\<close> from the least feature
  minus 0.5 to the greatest feature plus 0.5 with the step 0.02, all three as float64
  evaluates them, and the model is evaluated at every point of that mesh, row by row.
  In either arithmetic each axis is near the regular grid in the sense of
  \<open>axis_near_regular\<close>: the bounds and the step are within one rounding of the stated
  ones, the first coordinate is the lower bound, the number of coordinates is that of
  the regular grid give or take one, and coordinate \<open>i\<close> is \<open>lo + i * 0.02\<close> up to the
  rounding error bounded there. In exact arithmetic each axis is the regular grid
  itself: the points \<open>lo + i * 0.02\<close> below \<open>hi\<close>. In float64 it need not be, as the two
  samples further down show.
\<close>

theorem renderer_grid_bounds_and_step:
  assumes "X \<noteq> []"
  shows "\<exists>gx gy ax'.
     np_arange a (rnd a (Min (fst ` set X) - 1 / 2)) (rnd a (Max (fst ` set X) + 1 / 2)) (rnd a (1 / 50)) = Inr gx \<and>
     np_arange a (rnd a (Min (snd ` set X) - 1 / 2)) (rnd a (Max (snd ` set X) + 1 / 2)) (rnd a (1 / 50)) = Inr gy \<and>
     plot_decision_boundary a K m X y ax = Inr ax' \<and>
     boundary_grid ax' = Some (np_meshgrid gx gy) \<and>
     boundary_classes ax' =
       Some \<lparr>shape = (length gy, length gx),
             flat = greater_half_astype_int
                      (map (forward K m) (concat (map (\<lambda>v. map (\<lambda>u. (u, v)) gx) gy)))\<rparr> \<and>
     axis_near_regular a (Min (fst ` set X) - 1 / 2) (Max (fst ` set X) + 1 / 2) gx \<and>
     axis_near_regular a (Min (snd ` set X) - 1 / 2) (Max (snd ` set X) + 1 / 2) gy \<and>
     (a = Exact \<longrightarrow>
        gx = regular_grid (Min (fst ` set X) - 1 / 2) (Max (fst ` set X) + 1 / 2) (1 / 50) \<and>
        gy = regular_grid (Min (snd ` set X) - 1 / 2) (Max (snd ` set X) + 1 / 2) (1 / 50))"
proof -
  from plot_decision_boundary_eq [OF assms, of a K m y ax]
  obtain gx gy where
    gx: "np_arange a (rnd a (Min (fst ` set X) - 1 / 2)) (rnd a (Max (fst ` set X) + 1 / 2)) (rnd a (1 / 50)) = Inr gx"
    and gy: "np_arange a (rnd a (Min (snd ` set X) - 1 / 2)) (rnd a (Max (snd ` set X) + 1 / 2)) (rnd a (1 / 50)) = Inr gy"
    and res: "plot_decision_boundary a K m X y ax = Inr (rendered K m X y ax gx gy)"
    by blast
  have "Min (set (map fst X)) \<le> Max (set (map fst X))" using assms by (intro Min_le_Max_set) simp
  then have ox: "Min (fst ` set X) - 1 / 2 \<le> Max (fst ` set X) + 1 / 2" by simp
  have "Min (set (map snd X)) \<le> Max (set (map snd X))" using assms by (intro Min_le_Max_set) simp
  then have oy: "Min (snd ` set X) - 1 / 2 \<le> Max (snd ` set X) + 1 / 2" by simp
  have nx: "axis_near_regular a (Min (fst ` set X) - 1 / 2) (Max (fst ` set X) + 1 / 2) gx"
    using ox gx by (rule np_arange_near_regular)
  have ny: "axis_near_regular a (Min (snd ` set X) - 1 / 2) (Max (snd ` set X) + 1 / 2) gy"
    using oy gy by (rule np_arange_near_regular)
  have ex: "a = Exact \<longrightarrow>
        gx = regular_grid (Min (fst ` set X) - 1 / 2) (Max (fst ` set X) + 1 / 2) (1 / 50) \<and>
        gy = regular_grid (Min (snd ` set X) - 1 / 2) (Max (snd ` set X) + 1 / 2) (1 / 50)"
    using gx gy by (auto simp add: np_arange_exact)
  show ?thesis
  proof (intro exI conjI)
    show "np_arange a (rnd a (Min (fst ` set X) - 1 / 2)) (rnd a (Max (fst ` set X) + 1 / 2)) (rnd a (1 / 50)) = Inr gx"
      by (rule gx)
    show "np_arange a (rnd a (Min (snd ` set X) - 1 / 2)) (rnd a (Max (snd ` set X) + 1 / 2)) (rnd a (1 / 50)) = Inr gy"
      by (rule gy)
    show "plot_decision_boundary a K m X y ax = Inr (rendered K m X y ax gx gy)" by (rule res)
    show "boundary_grid (rendered K m X y ax gx gy) = Some (np_meshgrid gx gy)"
      by (rule boundary_grid_rendered)
    show "boundary_classes (rendered K m X y ax gx gy) =
       Some \<lparr>shape = (length gy, length gx),
             flat = greater_half_astype_int
                      (map (forward K m) (concat (map (\<lambda>v. map (\<lambda>u. (u, v)) gx) gy)))\<rparr>"
      by (rule boundary_classes_rendered)
    show "axis_near_regular a (Min (fst ` set X) - 1 / 2) (Max (fst ` set X) + 1 / 2) gx" by (rule nx)
    show "axis_near_regular a (Min (snd ` set X) - 1 / 2) (Max (snd ` set X) + 1 / 2) gy" by (rule ny)
    show "a = Exact \<longrightarrow>
        gx = regular_grid (Min (fst ` set X) - 1 / 2) (Max (fst ` set X) + 1 / 2) (1 / 50) \<and>
        gy = regular_grid (Min (snd ` set X) - 1 / 2) (Max (snd ` set X) + 1 / 2) (1 / 50)"
      by (rule ex)
  qed
qed

theorem renderer_grid_bounds_and_step_witness:
  "[(0, 0), (1, 1)] \<noteq> ([] :: (rat \<times> rat) list) \<and>
   (\<exists>ax'. plot_decision_boundary Exact demo_framework demo_model [(0, 0), (1, 1)] [0, 1] new_axes = Inr ax' \<and>
      boundary_grid ax' =
        Some (np_meshgrid (regular_grid (- (1 / 2)) (3 / 2) (1 / 50))
                          (regular_grid (- (1 / 2)) (3 / 2) (1 / 50)))) \<and>
   (\<exists>ax' gx gy.
      plot_decision_boundary Binary64 demo_framework demo_model [(0, 0), (1, 1)] [0, 1] new_axes = Inr ax' \<and>
      boundary_grid ax' = Some (np_meshgrid gx gy) \<and>
      gx \<noteq> [] \<and> hd gx = - (1 / 2) \<and> \<bar>int (length gx) - 100\<bar> \<le> 1 \<and>
      gy \<noteq> [] \<and> hd gy = - (1 / 2) \<and> \<bar>int (length gy) - 100\<bar> \<le> 1)"
proof -
  have h: "[(0, 0), (1, 1)] \<noteq> ([] :: (rat \<times> rat) list)" by simp
  from renderer_grid_bounds_and_step [OF h, of Exact demo_framework demo_model "[0, 1]" new_axes]
  have ex: "\<exists>ax'. plot_decision_boundary Exact demo_framework demo_model [(0, 0), (1, 1)] [0, 1] new_axes = Inr ax' \<and>
      boundary_grid ax' =
        Some (np_meshgrid (regular_grid (- (1 / 2)) (3 / 2) (1 / 50))
                          (regular_grid (- (1 / 2)) (3 / 2) (1 / 50)))"
    by auto
  from renderer_grid_bounds_and_step [OF h, of Binary64 demo_framework demo_model "[0, 1]" new_axes]
  obtain gx gy ax' where
    pl: "plot_decision_boundary Binary64 demo_framework demo_model [(0, 0), (1, 1)] [0, 1] new_axes = Inr ax'"
    and gr: "boundary_grid ax' = Some (np_meshgrid gx gy)"
    and nx: "axis_near_regular Binary64 (Min (fst ` set [(0, 0), (1, 1 :: rat)]) - 1 / 2)
               (Max (fst ` set [(0, 0), (1, 1 :: rat)]) + 1 / 2) gx"
    and ny: "axis_near_regular Binary64 (Min (snd ` set [(0 :: rat, 0), (1, 1)]) - 1 / 2)
               (Max (snd ` set [(0 :: rat, 0), (1, 1)]) + 1 / 2) gy"
    by blast
  have lt: "- (1 / 2) < (3 / 2 :: rat)" by simp
  have fx: "gx \<noteq> [] \<and> hd gx = - (1 / 2) \<and> \<bar>int (length gx) - 100\<bar> \<le> 1"
    using nx lt demo_columns_small
    unfolding axis_near_regular_def Let_def demo_bounds demo_regular_length by auto
  have fy: "gy \<noteq> [] \<and> hd gy = - (1 / 2) \<and> \<bar>int (length gy) - 100\<bar> \<le> 1"
    using ny lt demo_columns_small
    unfolding axis_near_regular_def Let_def demo_bounds demo_regular_length by auto
  from h ex pl gr fx fy show ?thesis by blast
qed

text \<open>
  C2 as stated fails in float64. For the two samples with first features 0.5 and 0.62
  the regular grid from \<open>0.5 - 0.5\<close> to \<open>0.62 + 0.5\<close> with step 0.02 has 56 columns,
  since \<open>56 * 0.02\<close> is not below the exact sum. The renderer's grid has 57:
  \<open>(0.62 + 0.5) / 0.02\<close> evaluates to \<open>56.00000000000001\<close>, whose ceiling is the length
  of the range.
\<close>

theorem float_grid_has_extra_column:
  "grid_shape (plot_decision_boundary Binary64 demo_framework demo_model samples_062 [0, 1] new_axes)
     = (50, 57)
   \<and> length (regular_grid (Min (snd ` set samples_062) - 1 / 2)
                (Max (snd ` set samples_062) + 1 / 2) (1 / 50)) = 50
   \<and> length (regular_grid (Min (fst ` set samples_062) - 1 / 2)
                (Max (fst ` set samples_062) + 1 / 2) (1 / 50)) = 56"
proof -
  have X: "samples_062 \<noteq> []" by (simp add: samples_062_def)
  have mn: "Min (fst ` set samples_062) = 1 / 2" and mx: "Max (fst ` set samples_062) = 5584463537939415 / 9007199254740992"
    and mny: "Min (snd ` set samples_062) = 0" and mxy: "Max (snd ` set samples_062) = 0"
    by (simp_all add: samples_062_def binary64_062)
  have xmin: "rnd Binary64 (Min (fst ` set samples_062) - 1 / 2) = 0"
    unfolding mn by (simp add: binary64_zero)
  have xmax: "rnd Binary64 (Max (fst ` set samples_062) + 1 / 2) = 1261007895663739 / 1125899906842624"
    unfolding mx by code_simp
  have ymin: "rnd Binary64 (Min (snd ` set samples_062) - 1 / 2) = - (1 / 2)"
    and ymax: "rnd Binary64 (Max (snd ` set samples_062) + 1 / 2) = 1 / 2"
    unfolding mny mxy by code_simp+
  have h: "rnd Binary64 (1 / 50) = 5764607523034235 / 288230376151711744"
    by code_simp
  from plot_decision_boundary_eq [OF X, of Binary64 demo_framework demo_model "[0, 1]" new_axes]
  obtain gx gy where
    gx: "np_arange Binary64 0 (1261007895663739 / 1125899906842624) (5764607523034235 / 288230376151711744) = Inr gx"
    and gy: "np_arange Binary64 (- (1 / 2)) (1 / 2) (5764607523034235 / 288230376151711744) = Inr gy"
    and res: "plot_decision_boundary Binary64 demo_framework demo_model samples_062 [0, 1] new_axes
                = Inr (rendered demo_framework demo_model samples_062 [0, 1] new_axes gx gy)"
    unfolding xmin xmax ymin ymax h by blast
  have lx: "length gx = 57" using gx by (auto simp add: np_arange_def arange_length_112)
  have ly: "length gy = 50" using gy by (auto simp add: np_arange_def arange_length_unit)
  have shp: "grid_shape (plot_decision_boundary Binary64 demo_framework demo_model samples_062 [0, 1] new_axes)
     = (50, 57)"
    by (simp add: res grid_shape_def boundary_grid_rendered np_meshgrid_def lx ly)
  have ry: "length (regular_grid (Min (snd ` set samples_062) - 1 / 2)
                (Max (snd ` set samples_062) + 1 / 2) (1 / 50)) = 50"
    unfolding mny mxy by code_simp
  have rx: "length (regular_grid (Min (fst ` set samples_062) - 1 / 2)
                (Max (fst ` set samples_062) + 1 / 2) (1 / 50)) = 56"
    unfolding mn mx by code_simp
  from shp ry rx show ?thesis by (intro conjI)
qed

text \<open>
  C9, as amended. For every sample set of at least one sample, every grid coordinate on
  each axis is at least the least feature minus 0.5. In exact arithmetic it is also
  strictly below the greatest feature plus 0.5, and the grid is not empty. With float64
  rounding the strict upper bound is not guaranteed, as the two samples further down
  show.
\<close>

theorem grid_coordinates_half_open:
  assumes "X \<noteq> []"
  shows "\<exists>ax' xx yy.
     plot_decision_boundary a K m X y ax = Inr ax' \<and> boundary_grid ax' = Some (xx, yy) \<and>
     (\<forall>v\<in>set (flat xx). rnd a (Min (fst ` set X) - 1 / 2) \<le> v \<and>
                          (a = Exact \<longrightarrow> v < Max (fst ` set X) + 1 / 2)) \<and>
     (\<forall>v\<in>set (flat yy). rnd a (Min (snd ` set X) - 1 / 2) \<le> v \<and>
                          (a = Exact \<longrightarrow> v < Max (snd ` set X) + 1 / 2)) \<and>
     (a = Exact \<longrightarrow> flat xx \<noteq> [] \<and> flat yy \<noteq> [])"
proof -
  from plot_decision_boundary_eq [OF assms, of a K m y ax]
  obtain gx gy where
    gx: "np_arange a (rnd a (Min (fst ` set X) - 1 / 2)) (rnd a (Max (fst ` set X) + 1 / 2)) (rnd a (1 / 50)) = Inr gx"
    and gy: "np_arange a (rnd a (Min (snd ` set X) - 1 / 2)) (rnd a (Max (snd ` set X) + 1 / 2)) (rnd a (1 / 50)) = Inr gy"
    and res: "plot_decision_boundary a K m X y ax = Inr (rendered K m X y ax gx gy)"
    by blast
  define xx where "xx = fst (np_meshgrid gx gy)"
  define yy where "yy = snd (np_meshgrid gx gy)"
  have grid: "boundary_grid (rendered K m X y ax gx gy) = Some (xx, yy)"
    by (simp add: boundary_grid_rendered xx_def yy_def)
  have sx: "set (flat xx) \<subseteq> set gx" and sy: "set (flat yy) \<subseteq> set gy"
    unfolding xx_def yy_def by (rule set_flat_xx, rule set_flat_yy)
  have lowx: "rnd a (Min (fst ` set X) - 1 / 2) \<le> v" if "v \<in> set (flat xx)" for v
  proof (rule np_arange_lower [OF gx rnd_step_pos])
    show "v \<in> set gx" using that sx by (rule subsetD [rotated])
  qed
  have lowy: "rnd a (Min (snd ` set X) - 1 / 2) \<le> v" if "v \<in> set (flat yy)" for v
  proof (rule np_arange_lower [OF gy rnd_step_pos])
    show "v \<in> set gy" using that sy by (rule subsetD [rotated])
  qed
  have ex_gx: "np_arange Exact (Min (set (map fst X)) - 1 / 2) (Max (set (map fst X)) + 1 / 2) (1 / 50) = Inr gx"
    and ex_gy: "np_arange Exact (Min (set (map snd X)) - 1 / 2) (Max (set (map snd X)) + 1 / 2) (1 / 50) = Inr gy"
    if "a = Exact"
    using gx gy unfolding that by simp_all
  have upx: "v < Max (fst ` set X) + 1 / 2" if "a = Exact" "v \<in> set (flat xx)" for v
  proof -
    have "v \<in> set gx" using that(2) sx by (rule subsetD [rotated])
    with ex_gx [OF that(1)] have "v < Max (set (map fst X)) + 1 / 2" by (rule exact_axis_upper)
    then show ?thesis by simp
  qed
  have upy: "v < Max (snd ` set X) + 1 / 2" if "a = Exact" "v \<in> set (flat yy)" for v
  proof -
    have "v \<in> set gy" using that(2) sy by (rule subsetD [rotated])
    with ex_gy [OF that(1)] have "v < Max (set (map snd X)) + 1 / 2" by (rule exact_axis_upper)
    then show ?thesis by simp
  qed
  have ne: "flat xx \<noteq> [] \<and> flat yy \<noteq> []" if "a = Exact"
  proof -
    have nx: "map fst X \<noteq> []" and ny: "map snd X \<noteq> []" using assms by simp_all
    have "gx \<noteq> []" using nx ex_gx [OF that] by (rule exact_axis_nonempty)
    moreover have "gy \<noteq> []" using ny ex_gy [OF that] by (rule exact_axis_nonempty)
    ultimately have "gx \<noteq> []" "gy \<noteq> []" by simp_all
    then obtain u gx' v gy' where "gx = u # gx'" "gy = v # gy'"
      by (cases gx; cases gy) simp_all
    then show ?thesis
      by (simp add: xx_def yy_def np_meshgrid_def)
  qed
  show ?thesis
  proof (intro exI conjI)
    show "plot_decision_boundary a K m X y ax = Inr (rendered K m X y ax gx gy)" by (rule res)
    show "boundary_grid (rendered K m X y ax gx gy) = Some (xx, yy)" by (rule grid)
    show "\<forall>v\<in>set (flat xx). rnd a (Min (fst ` set X) - 1 / 2) \<le> v \<and>
                          (a = Exact \<longrightarrow> v < Max (fst ` set X) + 1 / 2)"
      using lowx upx by blast
    show "\<forall>v\<in>set (flat yy). rnd a (Min (snd ` set X) - 1 / 2) \<le> v \<and>
                          (a = Exact \<longrightarrow> v < Max (snd ` set X) + 1 / 2)"
      using lowy upy by blast
    show "a = Exact \<longrightarrow> flat xx \<noteq> [] \<and> flat yy \<noteq> []"
      using ne by blast
  qed
qed

theorem grid_coordinates_half_open_witness:
  "[(0, 0), (1, 1)] \<noteq> ([] :: (rat \<times> rat) list) \<and>
   (\<exists>ax' xx yy.
      plot_decision_boundary Exact demo_framework demo_model [(0, 0), (1, 1)] [0, 1] new_axes = Inr ax' \<and>
      boundary_grid ax' = Some (xx, yy) \<and>
      (\<forall>v\<in>set (flat xx). - (1 / 2) \<le> v \<and> v < 3 / 2) \<and>
      (\<forall>v\<in>set (flat yy). - (1 / 2) \<le> v \<and> v < 3 / 2) \<and>
      flat xx \<noteq> [] \<and> flat yy \<noteq> [])"
proof -
  have h: "[(0, 0), (1, 1)] \<noteq> ([] :: (rat \<times> rat) list)" by simp
  from grid_coordinates_half_open [OF h, of Exact demo_framework demo_model "[0, 1]" new_axes]
  show ?thesis by auto
qed

text \<open>
  C9 as stated fails in float64. For the two samples with first features 0.5
  and 0.62 the range starts at 0.0, stops at \<open>0.62 + 0.5\<close>, and has
  \<open>ceil(56.00000000000001) = 57\<close> items; item 56 is \<open>56 * 0.02\<close>, which is the same double
  as \<open>0.62 + 0.5\<close>. So the upper bound is a grid coordinate, and it is not below the
  exact sum either.
\<close>

theorem grid_reaches_upper_bound_binary64:
  "binary64 (Max (fst ` set samples_062) + 1 / 2)
     \<in> set (grid_x (plot_decision_boundary Binary64 demo_framework demo_model samples_062 [0, 1] new_axes))
   \<and> Max (fst ` set samples_062) + 1 / 2 \<le> binary64 (Max (fst ` set samples_062) + 1 / 2)"
proof -
  have X: "samples_062 \<noteq> []" by (simp add: samples_062_def)
  have mn: "Min (fst ` set samples_062) = 1 / 2" and mx: "Max (fst ` set samples_062) = 5584463537939415 / 9007199254740992"
    and mny: "Min (snd ` set samples_062) = 0" and mxy: "Max (snd ` set samples_062) = 0"
    by (simp_all add: samples_062_def binary64_062)
  have xmin: "rnd Binary64 (Min (fst ` set samples_062) - 1 / 2) = 0"
    unfolding mn by (simp add: binary64_zero)
  have xmax: "rnd Binary64 (Max (fst ` set samples_062) + 1 / 2) = 1261007895663739 / 1125899906842624"
    unfolding mx by code_simp
  have ymin: "rnd Binary64 (Min (snd ` set samples_062) - 1 / 2) = - (1 / 2)"
    and ymax: "rnd Binary64 (Max (snd ` set samples_062) + 1 / 2) = 1 / 2"
    unfolding mny mxy by code_simp+
  have h: "rnd Binary64 (1 / 50) = 5764607523034235 / 288230376151711744"
    by code_simp
  from plot_decision_boundary_eq [OF X, of Binary64 demo_framework demo_model "[0, 1]" new_axes]
  obtain gx gy where
    gx: "np_arange Binary64 0 (1261007895663739 / 1125899906842624) (5764607523034235 / 288230376151711744) = Inr gx"
    and gy: "np_arange Binary64 (- (1 / 2)) (1 / 2) (5764607523034235 / 288230376151711744) = Inr gy"
    and res: "plot_decision_boundary Binary64 demo_framework demo_model samples_062 [0, 1] new_axes
                = Inr (rendered demo_framework demo_model samples_062 [0, 1] new_axes gx gy)"
    unfolding xmin xmax ymin ymax h by blast
  have gx': "gx = map (arange_item Binary64 0 (5764607523034235 / 288230376151711744)) [0..<57]"
    using gx by (simp add: np_arange_def arange_length_112)
  have "(56::nat) < length gx" unfolding gx' by simp
  then have "gx ! 56 \<in> set gx" by (rule nth_mem)
  moreover have "gx ! 56 = 1261007895663739 / 1125899906842624"
    unfolding gx' by (simp add: arange_item_56)
  ultimately have in_gx: "1261007895663739 / 1125899906842624 \<in> set gx" by simp
  have "length gy = 50" using gy by (auto simp add: np_arange_def arange_length_unit)
  then have "set (flat (fst (np_meshgrid gx gy))) = set gx"
    by (simp add: np_meshgrid_def set_concat_replicate)
  then have mem: "1261007895663739 / 1125899906842624 \<in> set (grid_x (plot_decision_boundary Binary64 demo_framework demo_model samples_062 [0, 1] new_axes))"
    using in_gx by (simp add: res grid_x_def boundary_grid_rendered)
  have xm: "binary64 (Max (fst ` set samples_062) + 1 / 2) = 1261007895663739 / 1125899906842624"
    using xmax by (simp only: rnd.simps)
  have le: "Max (fst ` set samples_062) + 1 / 2 \<le> 1261007895663739 / 1125899906842624"
    unfolding mx by simp
  show ?thesis unfolding xm using mem le by (rule conjI)
qed





section \<open>The model factory\<close>

text \<open>
  C3. For every configuration the framework accepts (a positive neuron count, an
  activation it knows; the learning rate is arbitrary), \<^verbatim>\<open>create_model\<close> returns a model
  of exactly two dense layers: the hidden one of the given width and activation on a
  two-dimensional input, and one sigmoid output unit. It is compiled with Adam at the
  given learning rate and binary cross-entropy, and its weights are the initializer's:
  no training has touched them. Whatever the state of the random number generator, the
  architecture is the same: the configuration determines it.
\<close>

theorem create_model_architecture:
  assumes "0 < neurons" and "act \<in> set (activation_names K)"
    and "''sigmoid'' \<in> set (activation_names K)"
  shows "\<exists>m r'.
     create_model K neurons act lr r = Inr (m, r') \<and>
     layers m = [\<lparr>units = neurons, activation = act, input_shape = Some [2]\<rparr>,
                 \<lparr>units = 1, activation = ''sigmoid'', input_shape = None\<rparr>] \<and>
     optimizer m = Some (Adam lr) \<and>
     loss m = Some ''binary_crossentropy'' \<and>
     metrics m = [''accuracy''] \<and>
     (weights m, r') = initializer K (layers m) r \<and>
     (\<forall>s. \<exists>m2 s'. create_model K neurons act lr s = Inr (m2, s') \<and>
                     architecture m2 = architecture m)"
  using create_model_eq [OF assms, of lr] by (simp add: architecture_def)

theorem create_model_architecture_witness:
  "(0::int) < 4 \<and> ''relu'' \<in> set (activation_names demo_framework) \<and>
   ''sigmoid'' \<in> set (activation_names demo_framework) \<and>
   create_model demo_framework 4 ''relu'' (1 / 100) () = Inr (demo_model, ())"
proof -
  have h: "(0::int) < 4" "''relu'' \<in> set (activation_names demo_framework)"
    "''sigmoid'' \<in> set (activation_names demo_framework)"
    by (simp_all add: demo_framework_def)
  from create_model_architecture [OF h, of "1 / 100" "()"] obtain m r' where
    "create_model demo_framework 4 ''relu'' (1 / 100) () = Inr (m, r')"
    "layers m = [\<lparr>units = 4, activation = ''relu'', input_shape = Some [2]\<rparr>,
                 \<lparr>units = 1, activation = ''sigmoid'', input_shape = None\<rparr>]"
    "optimizer m = Some (Adam (1 / 100))" "loss m = Some ''binary_crossentropy''"
    "metrics m = [''accuracy'']"
    by blast
  then have "create_model demo_framework 4 ''relu'' (1 / 100) () = Inr (demo_model, ())"
    by (simp add: demo_model_def)
  with h show ?thesis by simp
qed

section \<open>The pipeline\<close>

text \<open>
  C1. For every parameter tuple the widgets can produce, on a sample set with at least
  one sample and as many labels as samples, and a framework that knows the three
  activations of the dropdown: \<^verbatim>\<open>interactive_nn\<close> does not raise, and the loss history
  of the trainer has exactly \<open>epochs\<close> elements, which are what the loss curve plots.
\<close>

theorem pipeline_completes_with_loss_per_epoch:
  assumes "valid_controls \<lparr>neurons_slider = neurons, activation_dropdown = act,
                            lr_slider = lr, epochs_slider = epochs\<rparr>"
    and "set [''relu'', ''tanh'', ''sigmoid''] \<subseteq> set (activation_names K)"
    and "data_X st \<noteq> []" and "length (data_X st) = length (data_y st)"
  shows "\<exists>model r1 model' hist r2 ax0 st'.
     create_model K neurons act lr (rng st) = Inr (model, r1) \<and>
     fit K model (data_X st) (data_y st) epochs r1 = Inr (model', hist, r2) \<and>
     int (length (hist_loss hist)) = epochs \<and>
     interactive_nn a K neurons act lr epochs st = Inr st' \<and>
     shown st' = [\<lparr>figsize = (12, 4), axs = [ax0, loss_curve hist]\<rparr>]"
proof -
  have n: "0 < neurons" and e: "0 \<le> epochs" and act: "act \<in> set (activation_names K)"
    and sg: "''sigmoid'' \<in> set (activation_names K)"
    using assms(1,2) by (auto simp add: valid_controls_def)
  from pipeline_run [OF n act sg assms(3,4), of lr epochs a]
  obtain model r1 model' hist r2 gx gy where
    cm: "create_model K neurons act lr (rng st) = Inr (model, r1)"
    and ft: "fit K model (data_X st) (data_y st) epochs r1 = Inr (model', hist, r2)"
    and len: "length (hist_loss hist) = nat epochs"
    and run: "interactive_nn a K neurons act lr epochs st =
       Inr (st\<lparr>rng := r2,
               shown := [\<lparr>figsize = (12, 4),
                          axs = [rendered K model' (data_X st) (data_y st)
                                   (set_title new_axes ''Decision Boundary'') gx gy,
                                 loss_curve hist]\<rparr>],
               clear_pending := False\<rparr>)"
    by blast
  show ?thesis
  proof (intro exI conjI)
    show "create_model K neurons act lr (rng st) = Inr (model, r1)" by (rule cm)
    show "fit K model (data_X st) (data_y st) epochs r1 = Inr (model', hist, r2)" by (rule ft)
    show "int (length (hist_loss hist)) = epochs" using len e by simp
    show "interactive_nn a K neurons act lr epochs st =
       Inr (st\<lparr>rng := r2,
               shown := [\<lparr>figsize = (12, 4),
                          axs = [rendered K model' (data_X st) (data_y st)
                                   (set_title new_axes ''Decision Boundary'') gx gy,
                                 loss_curve hist]\<rparr>],
               clear_pending := False\<rparr>)" by (rule run)
    show "shown (st\<lparr>rng := r2,
               shown := [\<lparr>figsize = (12, 4),
                          axs = [rendered K model' (data_X st) (data_y st)
                                   (set_title new_axes ''Decision Boundary'') gx gy,
                                 loss_curve hist]\<rparr>],
               clear_pending := False\<rparr>)
          = [\<lparr>figsize = (12, 4),
              axs = [rendered K model' (data_X st) (data_y st)
                       (set_title new_axes ''Decision Boundary'') gx gy,
                     loss_curve hist]\<rparr>]" by simp
  qed
qed

theorem pipeline_completes_with_loss_per_epoch_witness:
  "valid_controls \<lparr>neurons_slider = 4, activation_dropdown = ''relu'',
                    lr_slider = 1 / 100, epochs_slider = 100\<rparr> \<and>
   set [''relu'', ''tanh'', ''sigmoid''] \<subseteq> set (activation_names demo_framework) \<and>
   data_X demo_kernel \<noteq> [] \<and> length (data_X demo_kernel) = length (data_y demo_kernel) \<and>
   (\<exists>model r1 model' hist r2 st'.
      create_model demo_framework 4 ''relu'' (1 / 100) (rng demo_kernel) = Inr (model, r1) \<and>
      fit demo_framework model (data_X demo_kernel) (data_y demo_kernel) 100 r1
        = Inr (model', hist, r2) \<and>
      length (hist_loss hist) = 100 \<and>
      interactive_nn Exact demo_framework 4 ''relu'' (1 / 100) 100 demo_kernel = Inr st')"
proof -
  have v: "valid_controls \<lparr>neurons_slider = 4, activation_dropdown = ''relu'',
                    lr_slider = 1 / 100, epochs_slider = 100\<rparr>"
    by (simp add: valid_controls_def)
  from pipeline_completes_with_loss_per_epoch [OF v demo_names demo_data, of Exact]
  obtain model r1 model' hist r2 st' where
    "create_model demo_framework 4 ''relu'' (1 / 100) (rng demo_kernel) = Inr (model, r1)"
    "fit demo_framework model (data_X demo_kernel) (data_y demo_kernel) 100 r1
        = Inr (model', hist, r2)"
    "int (length (hist_loss hist)) = 100"
    "interactive_nn Exact demo_framework 4 ''relu'' (1 / 100) 100 demo_kernel = Inr st'"
    by blast
  then have "\<exists>model r1 model' hist r2 st'.
      create_model demo_framework 4 ''relu'' (1 / 100) (rng demo_kernel) = Inr (model, r1) \<and>
      fit demo_framework model (data_X demo_kernel) (data_y demo_kernel) 100 r1
        = Inr (model', hist, r2) \<and>
      length (hist_loss hist) = 100 \<and>
      interactive_nn Exact demo_framework 4 ''relu'' (1 / 100) 100 demo_kernel = Inr st'"
    by (intro exI conjI) (assumption, assumption, simp, assumption)
  with v demo_names demo_data show ?thesis by blast
qed

text \<open>
  C6. A change of any of the four controls to a value its widget allows runs the
  pipeline before the observer returns: \<^verbatim>\<open>create_model\<close> on the four current values,
  then \<^verbatim>\<open>fit\<close> on the model it returned and the generator state it left, then
  \<^verbatim>\<open>plot_decision_boundary\<close> on the fitted model. Afterwards the output area shows the
  new figure and nothing else, whatever it showed before; no clear is pending, and the
  sample set is as it was.
\<close>

theorem on_change_runs_pipeline_and_replaces_figure:
  assumes "valid_controls (set_value ch c)"
    and "set [''relu'', ''tanh'', ''sigmoid''] \<subseteq> set (activation_names K)"
    and "data_X st \<noteq> []" and "length (data_X st) = length (data_y st)"
  shows "\<exists>model r1 model' hist r2 ax0 st'.
     create_model K (neurons_slider (set_value ch c)) (activation_dropdown (set_value ch c))
       (lr_slider (set_value ch c)) (rng st) = Inr (model, r1) \<and>
     fit K model (data_X st) (data_y st) (epochs_slider (set_value ch c)) r1
       = Inr (model', hist, r2) \<and>
     plot_decision_boundary a K model' (data_X st) (data_y st)
       (set_title new_axes ''Decision Boundary'') = Inr ax0 \<and>
     on_change a K ch (c, st) = Inr (set_value ch c, st') \<and>
     shown st' = [\<lparr>figsize = (12, 4), axs = [ax0, loss_curve hist]\<rparr>] \<and>
     clear_pending st' = False \<and> rng st' = r2 \<and>
     data_X st' = data_X st \<and> data_y st' = data_y st"
proof -
  define c' where "c' = set_value ch c"
  define st0 where "st0 = clear_output True st"
  have st0: "rng st0 = rng st" "data_X st0 = data_X st" "data_y st0 = data_y st"
    by (simp_all add: st0_def clear_output_def)
  have n: "0 < neurons_slider c'" and act: "activation_dropdown c' \<in> set (activation_names K)"
    and sg: "''sigmoid'' \<in> set (activation_names K)"
    using assms(1,2) by (auto simp add: valid_controls_def c'_def)
  have X0: "data_X st0 \<noteq> []" "length (data_X st0) = length (data_y st0)"
    using assms(3,4) by (simp_all add: st0)
  from pipeline_run [OF n act sg X0, of "lr_slider c'" "epochs_slider c'" a]
  obtain model r1 model' hist r2 gx gy where
    cm: "create_model K (neurons_slider c') (activation_dropdown c') (lr_slider c') (rng st) = Inr (model, r1)"
    and ft: "fit K model (data_X st) (data_y st) (epochs_slider c') r1 = Inr (model', hist, r2)"
    and pl: "plot_decision_boundary a K model' (data_X st) (data_y st)
       (set_title new_axes ''Decision Boundary'')
       = Inr (rendered K model' (data_X st) (data_y st)
                (set_title new_axes ''Decision Boundary'') gx gy)"
    and run: "interactive_nn a K (neurons_slider c') (activation_dropdown c') (lr_slider c')
        (epochs_slider c') st0 =
       Inr (st0\<lparr>rng := r2,
               shown := [\<lparr>figsize = (12, 4),
                          axs = [rendered K model' (data_X st) (data_y st)
                                   (set_title new_axes ''Decision Boundary'') gx gy,
                                 loss_curve hist]\<rparr>],
               clear_pending := False\<rparr>)"
    unfolding st0 by blast
  have oc: "on_change a K ch (c, st) =
       Inr (c', st0\<lparr>rng := r2,
               shown := [\<lparr>figsize = (12, 4),
                          axs = [rendered K model' (data_X st) (data_y st)
                                   (set_title new_axes ''Decision Boundary'') gx gy,
                                 loss_curve hist]\<rparr>],
               clear_pending := False\<rparr>)"
    using run by (simp add: on_change_def observer_def c'_def st0_def Let_def)
  define st' where "st' = st0\<lparr>rng := r2,
               shown := [\<lparr>figsize = (12, 4),
                          axs = [rendered K model' (data_X st) (data_y st)
                                   (set_title new_axes ''Decision Boundary'') gx gy,
                                 loss_curve hist]\<rparr>],
               clear_pending := False\<rparr>"
  show ?thesis
    unfolding c'_def [symmetric]
  proof (intro exI conjI)
    show "create_model K (neurons_slider c') (activation_dropdown c') (lr_slider c') (rng st)
            = Inr (model, r1)" by (rule cm)
    show "fit K model (data_X st) (data_y st) (epochs_slider c') r1 = Inr (model', hist, r2)"
      by (rule ft)
    show "plot_decision_boundary a K model' (data_X st) (data_y st)
       (set_title new_axes ''Decision Boundary'')
       = Inr (rendered K model' (data_X st) (data_y st)
                (set_title new_axes ''Decision Boundary'') gx gy)" by (rule pl)
    show "on_change a K ch (c, st) = Inr (c', st')" unfolding st'_def by (rule oc)
    show "shown st' = [\<lparr>figsize = (12, 4),
              axs = [rendered K model' (data_X st) (data_y st)
                       (set_title new_axes ''Decision Boundary'') gx gy,
                     loss_curve hist]\<rparr>]" by (simp add: st'_def)
    show "clear_pending st' = False" by (simp add: st'_def)
    show "rng st' = r2" by (simp add: st'_def)
    show "data_X st' = data_X st" by (simp add: st'_def st0)
    show "data_y st' = data_y st" by (simp add: st'_def st0)
  qed
qed

theorem on_change_runs_pipeline_and_replaces_figure_witness:
  "valid_controls (set_value (Epochs 150) initial_controls) \<and>
   set [''relu'', ''tanh'', ''sigmoid''] \<subseteq> set (activation_names demo_framework) \<and>
   data_X demo_kernel \<noteq> [] \<and> length (data_X demo_kernel) = length (data_y demo_kernel) \<and>
   (\<exists>st' fig. on_change Exact demo_framework (Epochs 150) (initial_controls, demo_kernel)
                 = Inr (set_value (Epochs 150) initial_controls, st') \<and>
              shown st' = [fig] \<and> clear_pending st' = False)"
proof -
  have v: "valid_controls (set_value (Epochs 150) initial_controls)"
    by (simp add: valid_controls_def initial_controls_def)
  from on_change_runs_pipeline_and_replaces_figure [OF v demo_names demo_data, of Exact]
  have "\<exists>st' fig. on_change Exact demo_framework (Epochs 150) (initial_controls, demo_kernel)
                 = Inr (set_value (Epochs 150) initial_controls, st') \<and>
              shown st' = [fig] \<and> clear_pending st' = False"
    by blast
  with v demo_names demo_data show ?thesis by blast
qed

text \<open>
  C7. Two runs of the pipeline from the same state that differ only in the activation
  leave the sample set as it was, draw the same grid and scatter the same samples. The
  grid is the same for every framework, model, label array and axes: it depends on the
  sample set alone.
\<close>

theorem activation_change_keeps_samples_and_grid:
  assumes "0 < n" and "act1 \<in> set (activation_names K)" and "act2 \<in> set (activation_names K)"
    and "''sigmoid'' \<in> set (activation_names K)"
    and "data_X st \<noteq> []" and "length (data_X st) = length (data_y st)"
  shows "\<exists>g st1 st2 f1 f2.
     interactive_nn a K n act1 lr e st = Inr st1 \<and>
     interactive_nn a K n act2 lr e st = Inr st2 \<and>
     data_X st1 = data_X st \<and> data_y st1 = data_y st \<and>
     data_X st2 = data_X st \<and> data_y st2 = data_y st \<and>
     shown st1 = [f1] \<and> shown st2 = [f2] \<and>
     boundary_grid (hd (axs f1)) = Some g \<and> boundary_grid (hd (axs f2)) = Some g \<and>
     boundary_samples (hd (axs f1)) = Some (map fst (data_X st), map snd (data_X st), data_y st) \<and>
     boundary_samples (hd (axs f2)) = Some (map fst (data_X st), map snd (data_X st), data_y st) \<and>
     (\<forall>(K' :: ('v, 's) framework) m' y' ax'.
         \<exists>res. plot_decision_boundary a K' m' (data_X st) y' ax' = Inr res \<and>
               boundary_grid res = Some g)"
proof -
  let ?lo0 = "rnd a (Min (fst ` set (data_X st)) - 1 / 2)"
  let ?hi0 = "rnd a (Max (fst ` set (data_X st)) + 1 / 2)"
  let ?lo1 = "rnd a (Min (snd ` set (data_X st)) - 1 / 2)"
  let ?hi1 = "rnd a (Max (snd ` set (data_X st)) + 1 / 2)"
  let ?ax = "set_title new_axes ''Decision Boundary''"
  from pipeline_run [OF assms(1,2,4,5,6), of lr e a]
  obtain ma ha ra gx gy where
    gx: "np_arange a ?lo0 ?hi0 (rnd a (1 / 50)) = Inr gx"
    and gy: "np_arange a ?lo1 ?hi1 (rnd a (1 / 50)) = Inr gy"
    and run1: "interactive_nn a K n act1 lr e st =
       Inr (st\<lparr>rng := ra,
               shown := [\<lparr>figsize = (12, 4),
                          axs = [rendered K ma (data_X st) (data_y st) ?ax gx gy, loss_curve ha]\<rparr>],
               clear_pending := False\<rparr>)"
    by blast
  from pipeline_run [OF assms(1,3,4,5,6), of lr e a]
  obtain mb hb rb gx' gy' where
    gx': "np_arange a ?lo0 ?hi0 (rnd a (1 / 50)) = Inr gx'"
    and gy': "np_arange a ?lo1 ?hi1 (rnd a (1 / 50)) = Inr gy'"
    and run2': "interactive_nn a K n act2 lr e st =
       Inr (st\<lparr>rng := rb,
               shown := [\<lparr>figsize = (12, 4),
                          axs = [rendered K mb (data_X st) (data_y st) ?ax gx' gy', loss_curve hb]\<rparr>],
               clear_pending := False\<rparr>)"
    by blast
  have same: "gx' = gx" "gy' = gy" using gx gy gx' gy' by simp_all
  note run2 = run2' [unfolded same]
  define f1 where "f1 = \<lparr>figsize = (12, 4),
      axs = [rendered K ma (data_X st) (data_y st) ?ax gx gy, loss_curve ha]\<rparr>"
  define f2 where "f2 = \<lparr>figsize = (12, 4),
      axs = [rendered K mb (data_X st) (data_y st) ?ax gx gy, loss_curve hb]\<rparr>"
  define st1 where "st1 = st\<lparr>rng := ra, shown := [f1], clear_pending := False\<rparr>"
  define st2 where "st2 = st\<lparr>rng := rb, shown := [f2], clear_pending := False\<rparr>"
  have any: "\<exists>res. plot_decision_boundary a K' m' (data_X st) y' ax' = Inr res \<and>
               boundary_grid res = Some (np_meshgrid gx gy)"
    for K' :: "('v, 's) framework" and m' y' ax'
  proof -
    from plot_decision_boundary_eq [OF assms(5), of a K' m' y' ax']
    obtain hx hy where
      hx: "np_arange a ?lo0 ?hi0 (rnd a (1 / 50)) = Inr hx"
      and hy: "np_arange a ?lo1 ?hi1 (rnd a (1 / 50)) = Inr hy"
      and res: "plot_decision_boundary a K' m' (data_X st) y' ax'
                  = Inr (rendered K' m' (data_X st) y' ax' hx hy)"
      by blast
    have "hx = gx" "hy = gy" using gx gy hx hy by simp_all
    with res show ?thesis by (simp add: boundary_grid_rendered)
  qed
  show ?thesis
  proof (intro exI conjI)
    show "interactive_nn a K n act1 lr e st = Inr st1" unfolding st1_def f1_def by (rule run1)
    show "interactive_nn a K n act2 lr e st = Inr st2" unfolding st2_def f2_def by (rule run2)
    show "data_X st1 = data_X st" "data_y st1 = data_y st" by (simp_all add: st1_def)
    show "data_X st2 = data_X st" "data_y st2 = data_y st" by (simp_all add: st2_def)
    show "shown st1 = [f1]" by (simp add: st1_def)
    show "shown st2 = [f2]" by (simp add: st2_def)
    show "boundary_grid (hd (axs f1)) = Some (np_meshgrid gx gy)"
      by (simp add: f1_def boundary_grid_rendered)
    show "boundary_grid (hd (axs f2)) = Some (np_meshgrid gx gy)"
      by (simp add: f2_def boundary_grid_rendered)
    show "boundary_samples (hd (axs f1)) = Some (map fst (data_X st), map snd (data_X st), data_y st)"
      by (simp add: f1_def boundary_samples_rendered)
    show "boundary_samples (hd (axs f2)) = Some (map fst (data_X st), map snd (data_X st), data_y st)"
      by (simp add: f2_def boundary_samples_rendered)
    show "\<forall>(K' :: ('v, 's) framework) m' y' ax'.
         \<exists>res. plot_decision_boundary a K' m' (data_X st) y' ax' = Inr res \<and>
               boundary_grid res = Some (np_meshgrid gx gy)"
      using any by blast
  qed
qed

theorem activation_change_keeps_samples_and_grid_witness:
  "(0::int) < 4 \<and> ''relu'' \<in> set (activation_names demo_framework) \<and>
   ''tanh'' \<in> set (activation_names demo_framework) \<and>
   ''sigmoid'' \<in> set (activation_names demo_framework) \<and>
   data_X demo_kernel \<noteq> [] \<and> length (data_X demo_kernel) = length (data_y demo_kernel) \<and>
   (\<exists>st1 st2.
      interactive_nn Exact demo_framework 4 ''relu'' (1 / 100) 100 demo_kernel = Inr st1 \<and>
      interactive_nn Exact demo_framework 4 ''tanh'' (1 / 100) 100 demo_kernel = Inr st2 \<and>
      data_X st1 = data_X st2 \<and> data_y st1 = data_y st2 \<and>
      map (\<lambda>f. boundary_grid (hd (axs f))) (shown st1)
        = map (\<lambda>f. boundary_grid (hd (axs f))) (shown st2))"
proof -
  have h: "(0::int) < 4" "''relu'' \<in> set (activation_names demo_framework)"
    "''tanh'' \<in> set (activation_names demo_framework)"
    "''sigmoid'' \<in> set (activation_names demo_framework)"
    by (simp_all add: demo_framework_def)
  from activation_change_keeps_samples_and_grid [OF h demo_data, of Exact "1 / 100" 100]
  obtain g st1 st2 f1 f2 where
    "interactive_nn Exact demo_framework 4 ''relu'' (1 / 100) 100 demo_kernel = Inr st1"
    "interactive_nn Exact demo_framework 4 ''tanh'' (1 / 100) 100 demo_kernel = Inr st2"
    "data_X st1 = data_X demo_kernel" "data_y st1 = data_y demo_kernel"
    "data_X st2 = data_X demo_kernel" "data_y st2 = data_y demo_kernel"
    "shown st1 = [f1]" "shown st2 = [f2]"
    "boundary_grid (hd (axs f1)) = Some g" "boundary_grid (hd (axs f2)) = Some g"
    by blast
  then have "\<exists>st1 st2.
      interactive_nn Exact demo_framework 4 ''relu'' (1 / 100) 100 demo_kernel = Inr st1 \<and>
      interactive_nn Exact demo_framework 4 ''tanh'' (1 / 100) 100 demo_kernel = Inr st2 \<and>
      data_X st1 = data_X st2 \<and> data_y st1 = data_y st2 \<and>
      map (\<lambda>f. boundary_grid (hd (axs f))) (shown st1)
        = map (\<lambda>f. boundary_grid (hd (axs f))) (shown st2)"
    by (intro exI [of _ st1] exI [of _ st2]) simp
  with h demo_data show ?thesis by blast
qed

end
